theory Spec2Isabelle
  imports Main
begin

section \<open>Errors and sequencing\<close>

text \<open>
  The helpers of \<^verbatim>\<open>helpers.py\<close> raise Python exceptions and pass on the exceptions
  of the libraries they call. An exception is a value here: a result is
  \<open>error + 'a\<close>, with \<open>Inl\<close> for a raised exception.
  \<^item> \<open>KeyError S\<close>: a dictionary or column lookup of the labels \<open>S\<close> that are absent;
  \<^item> \<open>AssertionError None\<close>: a failed \<^verbatim>\<open>assert\<close> without message,
    \<open>AssertionError (Some S)\<close>: the failed \<^verbatim>\<open>assert\<close> of \<^verbatim>\<open>species_for_mechanism\<close>,
    whose message prints the set \<open>S\<close>;
  \<^item> \<open>TypeError\<close>, \<open>IndexError\<close>, \<open>ValueError\<close>, \<open>MergeError\<close>: raised by the
    standard library and by pandas;
  \<^item> \<open>ExternalError n\<close>: any exception of the chemistry libraries (automol, autoreact,
    chemkin_io), which the helpers never catch.
\<close>

datatype error =
    TypeError
  | IndexError
  | ValueError
  | MergeError
  | KeyError "string set"
  | AssertionError "string set option"
  | ExternalError nat

definition bind_err :: "error + 'a \<Rightarrow> ('a \<Rightarrow> error + 'b) \<Rightarrow> error + 'b" where
  "bind_err m f = (case m of Inl e \<Rightarrow> Inl e | Inr x \<Rightarrow> f x)"

text \<open>A comprehension or a \<^verbatim>\<open>map\<close> whose body can raise: left to right, the first
  exception ends it.\<close>

fun mapM_err :: "('a \<Rightarrow> error + 'b) \<Rightarrow> 'a list \<Rightarrow> error + 'b list" where
  "mapM_err f [] = Inr []"
| "mapM_err f (x # xs) =
     bind_err (f x) (\<lambda>y. bind_err (mapM_err f xs) (\<lambda>ys. Inr (y # ys)))"

section \<open>Strings\<close>

text \<open>\<^verbatim>\<open>str.endswith\<close>.\<close>

definition endswith :: "string \<Rightarrow> string \<Rightarrow> bool" where
  "endswith s suf = (length suf \<le> length s \<and> drop (length s - length suf) s = suf)"

definition newline :: char where
  "newline = CHR 0x0A"

text \<open>
  \<^verbatim>\<open>re.sub("<class>$", repl, s)\<close> for a pattern that is one character class followed
  by \<^verbatim>\<open>$\<close>. Without the MULTILINE flag \<^verbatim>\<open>$\<close> matches at the end of the string and
  just before a newline that is the last character, so a character of the class
  is replaced when nothing, or only that final newline, follows it. The scan goes left
  to right and resumes after each match.
\<close>

fun re_sub_end :: "(char \<Rightarrow> bool) \<Rightarrow> string \<Rightarrow> string \<Rightarrow> string" where
  "re_sub_end cls repl [] = []"
| "re_sub_end cls repl (c # cs) =
     (if cls c \<and> (cs = [] \<or> cs = [newline]) then repl @ re_sub_end cls repl cs
      else c # re_sub_end cls repl cs)"

section \<open>Species names\<close>

text \<open>
  \<^verbatim>\<open>automol.amchi.is_enantiomer\<close> is a parameter: it is given an identifier, or
  \<^verbatim>\<open>None\<close> when a caller obtained the identifier with \<^verbatim>\<open>dict.get\<close>, and
  answers or raises.
  \<^verbatim>\<open>
  def racemic_species_name(name, chi):
      if not automol.amchi.is_enantiomer(chi):
          return name
      assert name.endswith("0") or name.endswith("1")
      return re.sub("[01]$", "r", name)
  \<close>
\<close>

definition racemic_species_name ::
  "(string option \<Rightarrow> error + bool) \<Rightarrow> string \<Rightarrow> string option \<Rightarrow> error + string" where
  "racemic_species_name is_enantiomer name chi =
     bind_err (is_enantiomer chi) (\<lambda>b.
       if \<not> b then Inr name
       else if \<not> (endswith name ''0'' \<or> endswith name ''1'') then Inl (AssertionError None)
       else Inr (re_sub_end (\<lambda>c. c = CHR ''0'' \<or> c = CHR ''1'') ''r'' name))"

text \<open>
  \<^verbatim>\<open>
  def reflect_species_name(name, chi):
      if not automol.amchi.is_enantiomer(chi):
          return name
      assert name.endswith("0") or name.endswith("1")
      return re.sub("1$", "0", name) if name.endswith("1") else re.sub("0$", "1", name)
  \<close>
\<close>

definition reflect_species_name ::
  "(string option \<Rightarrow> error + bool) \<Rightarrow> string \<Rightarrow> string option \<Rightarrow> error + string" where
  "reflect_species_name is_enantiomer name chi =
     bind_err (is_enantiomer chi) (\<lambda>b.
       if \<not> b then Inr name
       else if \<not> (endswith name ''0'' \<or> endswith name ''1'') then Inl (AssertionError None)
       else if endswith name ''1'' then Inr (re_sub_end (\<lambda>c. c = CHR ''1'') ''0'' name)
       else Inr (re_sub_end (\<lambda>c. c = CHR ''0'') ''1'' name))"

section \<open>Tables\<close>

text \<open>
  A pandas \<^verbatim>\<open>DataFrame\<close> is its column labels, in order, and its rows, in order; a
  row holds one cell per column. A cell is a string, a number, an object of one of
  the libraries (a parsed parameter object, a formula) or missing (\<^verbatim>\<open>NaN\<close>,
  \<^verbatim>\<open>None\<close>). The row index of a frame is not used by the helpers and is left out.
  The helpers are written for frames whose column labels are pairwise distinct and
  whose key columns have comparable types; \<open>wf_table\<close> says the first and that every
  row has a cell for every column.
\<close>

datatype 'o cell = Str string | Num int | Obj 'o | Null

record 'o table =
  columns :: "string list"
  rows :: "'o cell list list"

definition wf_table :: "'o table \<Rightarrow> bool" where
  "wf_table df =
     (distinct (columns df) \<and> list_all (\<lambda>r. length r = length (columns df)) (rows df))"

text \<open>The cell of a row under a label.\<close>

definition cell_at :: "string list \<Rightarrow> 'o cell list \<Rightarrow> string \<Rightarrow> 'o cell" where
  "cell_at cs r k = (case map_of (zip cs r) k of Some c \<Rightarrow> c | None \<Rightarrow> Null)"

text \<open>\<^verbatim>\<open>df[k]\<close>: the column, or \<^verbatim>\<open>KeyError\<close>.\<close>

definition get_column :: "'o table \<Rightarrow> string \<Rightarrow> error + 'o cell list" where
  "get_column df k =
     (if k \<in> set (columns df) then Inr (map (\<lambda>r. cell_at (columns df) r k) (rows df))
      else Inl (KeyError {k}))"

text \<open>\<^verbatim>\<open>df[k] = vals\<close>: overwrites the column when the label exists and appends it as the
  last column otherwise; \<open>vals\<close> has one value per row.\<close>

definition set_column :: "'o table \<Rightarrow> string \<Rightarrow> 'o cell list \<Rightarrow> 'o table" where
  "set_column df k vals =
     (if k \<in> set (columns df)
      then df\<lparr>rows :=
             map (\<lambda>(r, v). map (\<lambda>(c, x). if c = k then v else x) (zip (columns df) r))
               (zip (rows df) vals)\<rparr>
      else df\<lparr>columns := columns df @ [k],
              rows := map (\<lambda>(r, v). r @ [v]) (zip (rows df) vals)\<rparr>)"

text \<open>\<^verbatim>\<open>df[mask]\<close> with a boolean mask: the rows whose mask entry is true.\<close>

definition select_rows :: "'o table \<Rightarrow> bool list \<Rightarrow> 'o table" where
  "select_rows df sel = df\<lparr>rows := map fst (filter snd (zip (rows df) sel))\<rparr>"

text \<open>An element of \<^verbatim>\<open>df[k] == v\<close>: a missing value equals nothing.\<close>

definition cell_eq :: "'o cell \<Rightarrow> 'o cell \<Rightarrow> bool" where
  "cell_eq c v = (c \<noteq> Null \<and> v \<noteq> Null \<and> c = v)"

text \<open>\<^verbatim>\<open>functools.reduce(f, xs)\<close> without an initial value: \<^verbatim>\<open>TypeError\<close> on an empty
  sequence.\<close>

definition reduce :: "('a \<Rightarrow> 'a \<Rightarrow> 'a) \<Rightarrow> 'a list \<Rightarrow> error + 'a" where
  "reduce f xs = (case xs of [] \<Rightarrow> Inl TypeError | x # ys \<Rightarrow> Inr (foldl f x ys))"

text \<open>\<^verbatim>\<open>x & y\<close> on boolean columns.\<close>

definition mask_and :: "bool list \<Rightarrow> bool list \<Rightarrow> bool list" where
  "mask_and x y = map (\<lambda>(a, b). a \<and> b) (zip x y)"

subsection \<open>Row and value lookup\<close>

text \<open>
  \<^verbatim>\<open>
  def lookup_rows(df, col_val_dct):
      sels = [df[k] == v for k, v in col_val_dct.items()]
      return df[functools.reduce(lambda x, y: x & y, sels)]
  \<close>
  The dictionary is the list of its items in insertion order.
\<close>

definition lookup_rows :: "'o table \<Rightarrow> (string \<times> 'o cell) list \<Rightarrow> error + 'o table" where
  "lookup_rows df col_val_dct =
     bind_err
       (mapM_err (\<lambda>(k, v). bind_err (get_column df k) (\<lambda>col. Inr (map (\<lambda>c. cell_eq c v) col)))
          col_val_dct)
       (\<lambda>sels. bind_err (reduce mask_and sels) (\<lambda>sel. Inr (select_rows df sel)))"

text \<open>
  \<^verbatim>\<open>
  def lookup_row(df, col_val_dct):
      sel_df = lookup_rows(df, col_val_dct)
      return sel_df.iloc[0]
  \<close>
  The row comes back as a pandas \<^verbatim>\<open>Series\<close>: the cells under their labels.
\<close>

definition lookup_row ::
  "'o table \<Rightarrow> (string \<times> 'o cell) list \<Rightarrow> error + (string \<times> 'o cell) list" where
  "lookup_row df col_val_dct =
     bind_err (lookup_rows df col_val_dct) (\<lambda>sel_df.
       case rows sel_df of [] \<Rightarrow> Inl IndexError | r # _ \<Rightarrow> Inr (zip (columns sel_df) r))"

text \<open>\<^verbatim>\<open>row[key]\<close> on a \<^verbatim>\<open>Series\<close>.\<close>

definition series_get :: "(string \<times> 'o cell) list \<Rightarrow> string \<Rightarrow> error + 'o cell" where
  "series_get row key = (case map_of row key of None \<Rightarrow> Inl (KeyError {key}) | Some v \<Rightarrow> Inr v)"

text \<open>
  \<^verbatim>\<open>
  def lookup_value(df, key, col_val_dct):
      row = lookup_row(df, col_val_dct)
      return row[key]
  \<close>
\<close>

definition lookup_value ::
  "'o table \<Rightarrow> string \<Rightarrow> (string \<times> 'o cell) list \<Rightarrow> error + 'o cell" where
  "lookup_value df key col_val_dct =
     bind_err (lookup_row df col_val_dct) (\<lambda>row. series_get row key)"

text \<open>
  \<^verbatim>\<open>
  def lookup_value_series(df, key, col_val_dcts):
      rows = [lookup_row(df, c) for c in col_val_dcts]
      return tuple(r[key] for r in rows)
  \<close>
\<close>

definition lookup_value_series ::
  "'o table \<Rightarrow> string \<Rightarrow> (string \<times> 'o cell) list list \<Rightarrow> error + 'o cell list" where
  "lookup_value_series df key col_val_dcts =
     bind_err (mapM_err (lookup_row df) col_val_dcts) (\<lambda>rs.
       mapM_err (\<lambda>r. series_get r key) rs)"

subsection \<open>Adding the columns of another table\<close>

text \<open>
  The three pandas operations that \<^verbatim>\<open>with_columns_from_other\<close> is made of, as
  pandas documents them, for frames with pairwise distinct column labels.

  \<^verbatim>\<open>other_df.drop_duplicates(subset=merge_on)\<close> keeps, of the rows that agree on
  the key columns, the first; missing values count as equal. A frame without rows or
  without columns is returned as it is; a key that is no column is a \<^verbatim>\<open>KeyError\<close>
  of the absent keys. pandas rejects an empty key list on a frame that has rows; the
  class of that exception depends on the pandas release, \<open>ValueError\<close> stands for it.
\<close>

definition key_of :: "string list \<Rightarrow> string list \<Rightarrow> 'o cell list \<Rightarrow> 'o cell list" where
  "key_of cs keys r = map (cell_at cs r) keys"

fun drop_dups :: "('r \<Rightarrow> 'k) \<Rightarrow> 'k list \<Rightarrow> 'r list \<Rightarrow> 'r list" where
  "drop_dups key seen [] = []"
| "drop_dups key seen (r # rs) =
     (if key r \<in> set seen then drop_dups key seen rs
      else r # drop_dups key (key r # seen) rs)"

definition drop_duplicates :: "'o table \<Rightarrow> string list \<Rightarrow> error + 'o table" where
  "drop_duplicates df keys =
     (if rows df = [] \<or> columns df = [] then Inr df
      else if \<not> set keys \<subseteq> set (columns df)
        then Inl (KeyError (set keys - set (columns df)))
      else if keys = [] then Inl ValueError
      else Inr (df\<lparr>rows := drop_dups (key_of (columns df) keys) [] (rows df)\<rparr>))"

text \<open>
  \<^verbatim>\<open>pandas.merge(left, right, how="left", on=keys, suffixes=(None, "_y"))\<close>.
  Every key must be a column of both frames (the keys are resolved one by one, in
  the right frame first); an empty key list is rejected. The result has the columns
  of the left frame under their own labels, then the columns of the right frame that
  are no keys; such a column gets the suffix \<^verbatim>\<open>_y\<close> when its label is also a label
  of the left frame. pandas raises \<^verbatim>\<open>MergeError\<close> when the suffix makes two labels
  of the right frame equal, and does not compare the suffixed labels with those of
  the left frame. Each left row, in order, is joined with every right row that has
  the same key (missing values match each other), and with missing values when there
  is none.
\<close>

definition missing_key :: "string list \<Rightarrow> string list \<Rightarrow> string list \<Rightarrow> string option" where
  "missing_key lcols rcols keys =
     (case filter (\<lambda>k. \<not> (k \<in> set rcols \<and> k \<in> set lcols)) keys of
        [] \<Rightarrow> None | k # _ \<Rightarrow> Some k)"

definition join_row ::
  "string list \<Rightarrow> string list \<Rightarrow> string list \<Rightarrow> string list \<Rightarrow> 'o cell list list
     \<Rightarrow> 'o cell list \<Rightarrow> 'o cell list list" where
  "join_row lcols rcols keys extra rrows l =
     (let ms = filter (\<lambda>r. key_of rcols keys r = key_of lcols keys l) rrows
      in if ms = [] then [l @ map (\<lambda>c. Null) extra]
         else map (\<lambda>r. l @ map (cell_at rcols r) extra) ms)"

definition merge_left :: "'o table \<Rightarrow> 'o table \<Rightarrow> string list \<Rightarrow> error + 'o table" where
  "merge_left left right keys =
     (if keys = [] then Inl ValueError
      else case missing_key (columns left) (columns right) keys of
        Some k \<Rightarrow> Inl (KeyError {k})
      | None \<Rightarrow>
         (let extra = filter (\<lambda>c. c \<notin> set keys) (columns right);
              rlabels = map (\<lambda>c. if c \<in> set (columns left) then c @ ''_y'' else c) extra
          in if \<not> distinct rlabels then Inl MergeError
             else Inr \<lparr>columns = columns left @ rlabels,
                       rows = concat (map (join_row (columns left) (columns right) keys extra
                                             (rows right)) (rows left))\<rparr>))"

text \<open>
  \<^verbatim>\<open>df.filter(regex="_y$").columns\<close> are the labels in which \<^verbatim>\<open>re.search("_y$", label)\<close>
  finds a match: the label ends in \<^verbatim>\<open>_y\<close>, or in \<^verbatim>\<open>_y\<close> and a final newline.
  \<^verbatim>\<open>df.drop(labels, axis=1, inplace=True)\<close> removes every column under one of the
  labels.
\<close>

definition re_search_y_end :: "string \<Rightarrow> bool" where
  "re_search_y_end label = (endswith label ''_y'' \<or> endswith label (''_y'' @ [newline]))"

definition drop_columns :: "'o table \<Rightarrow> (string \<Rightarrow> bool) \<Rightarrow> 'o table" where
  "drop_columns df dropped =
     \<lparr>columns = filter (\<lambda>c. \<not> dropped c) (columns df),
      rows = map (\<lambda>r. map snd (filter (\<lambda>(c, v). \<not> dropped c) (zip (columns df) r))) (rows df)\<rparr>"

text \<open>
  \<^verbatim>\<open>
  def with_columns_from_other(df, other_df, merge_on):
      """Add missing columns from another DataFrame
      No new rows are added -- performs a non-redundant left merge
      :return: The DataFrame with added columns from `other_df`
      """
      other_df = other_df.drop_duplicates(subset=merge_on)
      df = pandas.merge(df, other_df, how="left", on=merge_on, suffixes=(None, "_y"))
      df.drop(df.filter(regex="_y$").columns, axis=1, inplace=True)
      return df
  \<close>
\<close>

definition with_columns_from_other ::
  "'o table \<Rightarrow> 'o table \<Rightarrow> string list \<Rightarrow> error + 'o table" where
  "with_columns_from_other df other_df merge_on =
     bind_err (drop_duplicates other_df merge_on) (\<lambda>other_df'.
       bind_err (merge_left df other_df' merge_on) (\<lambda>merged.
         Inr (drop_columns merged re_search_y_end)))"

section \<open>Reaction names\<close>

text \<open>
  The parser \<^verbatim>\<open>chemkin_io.parser.reaction.get_rxn_name\<close>, the writer
  \<^verbatim>\<open>chemkin_io.writer.format_rxn_name\<close> and the predicate
  \<^verbatim>\<open>automol.amchi.is_enantiomer_reaction\<close> are parameters; each answers or raises. A
  parsed name is the reactant names, the product names and the third body. The
  identifier dictionary \<^verbatim>\<open>chi_dct\<close> is a map: \<^verbatim>\<open>chi_dct.get\<close> is its application,
  \<^verbatim>\<open>chi_dct[n]\<close> raises \<^verbatim>\<open>KeyError\<close> for an absent name.
\<close>

definition dict_getitem :: "(string \<rightharpoonup> 'v) \<Rightarrow> string \<Rightarrow> error + 'v" where
  "dict_getitem d k = (case d k of None \<Rightarrow> Inl (KeyError {k}) | Some v \<Rightarrow> Inr v)"

text \<open>
  \<^verbatim>\<open>
  def chiral_reactant_count(name, chi_dct):
      rct_names, _, _ = chemkin_io.parser.reaction.get_rxn_name(name)
      return sum(map(automol.amchi.is_enantiomer, map(chi_dct.get, rct_names)))
  \<close>
\<close>

definition chiral_reactant_count ::
  "(string option \<Rightarrow> error + bool) \<Rightarrow> (string \<Rightarrow> error + string list \<times> string list \<times> 'tb)
     \<Rightarrow> string \<Rightarrow> (string \<rightharpoonup> string) \<Rightarrow> error + int" where
  "chiral_reactant_count is_enantiomer get_rxn_name name chi_dct =
     bind_err (get_rxn_name name) (\<lambda>(rct_names, prd_names, third_body).
       bind_err (mapM_err is_enantiomer (map chi_dct rct_names)) (\<lambda>bs.
         Inr (sum_list (map (\<lambda>b. if b then 1 else 0) bs))))"

text \<open>
  \<^verbatim>\<open>
  def racemic_reaction_name(name, chi_dct):
      rct_name0s, prd_name0s, third_body = chemkin_io.parser.reaction.get_rxn_name(name)
      rct_names = [racemic_species_name(n, chi_dct[n]) for n in rct_name0s]
      prd_names = [racemic_species_name(n, chi_dct[n]) for n in prd_name0s]
      return chemkin_io.writer.format_rxn_name((rct_names, prd_names, third_body))
  \<close>
\<close>

definition racemic_reaction_name ::
  "(string option \<Rightarrow> error + bool) \<Rightarrow> (string \<Rightarrow> error + string list \<times> string list \<times> 'tb)
     \<Rightarrow> (string list \<times> string list \<times> 'tb \<Rightarrow> error + string)
     \<Rightarrow> string \<Rightarrow> (string \<rightharpoonup> string) \<Rightarrow> error + string" where
  "racemic_reaction_name is_enantiomer get_rxn_name format_rxn_name name chi_dct =
     bind_err (get_rxn_name name) (\<lambda>(rct_name0s, prd_name0s, third_body).
       bind_err (mapM_err (\<lambda>n. bind_err (dict_getitem chi_dct n) (\<lambda>c.
                   racemic_species_name is_enantiomer n (Some c))) rct_name0s) (\<lambda>rct_names.
       bind_err (mapM_err (\<lambda>n. bind_err (dict_getitem chi_dct n) (\<lambda>c.
                   racemic_species_name is_enantiomer n (Some c))) prd_name0s) (\<lambda>prd_names.
       format_rxn_name (rct_names, prd_names, third_body))))"

text \<open>
  \<^verbatim>\<open>
  def reflect_reaction_name(name, chi_dct):
      rct_name0s, prd_name0s, third_body = chemkin_io.parser.reaction.get_rxn_name(name)
      rct_chis = list(map(chi_dct.get, rct_name0s))
      prd_chis = list(map(chi_dct.get, prd_name0s))
      if not automol.amchi.is_enantiomer_reaction(rct_chis, prd_chis):
          return None
      rct_names = [reflect_species_name(n, c) for n, c in zip(rct_name0s, rct_chis)]
      prd_names = [reflect_species_name(n, c) for n, c in zip(prd_name0s, prd_chis)]
      return chemkin_io.writer.format_rxn_name((rct_names, prd_names, third_body))
  \<close>
\<close>

definition reflect_reaction_name ::
  "(string option \<Rightarrow> error + bool)
     \<Rightarrow> (string option list \<Rightarrow> string option list \<Rightarrow> error + bool)
     \<Rightarrow> (string \<Rightarrow> error + string list \<times> string list \<times> 'tb)
     \<Rightarrow> (string list \<times> string list \<times> 'tb \<Rightarrow> error + string)
     \<Rightarrow> string \<Rightarrow> (string \<rightharpoonup> string) \<Rightarrow> error + string option" where
  "reflect_reaction_name is_enantiomer is_enantiomer_reaction get_rxn_name format_rxn_name
       name chi_dct =
     bind_err (get_rxn_name name) (\<lambda>(rct_name0s, prd_name0s, third_body).
       let rct_chis = map chi_dct rct_name0s;
           prd_chis = map chi_dct prd_name0s
       in bind_err (is_enantiomer_reaction rct_chis prd_chis) (\<lambda>b.
            if \<not> b then Inr None
            else
              bind_err (mapM_err (\<lambda>(n, c). reflect_species_name is_enantiomer n c)
                          (zip rct_name0s rct_chis)) (\<lambda>rct_names.
              bind_err (mapM_err (\<lambda>(n, c). reflect_species_name is_enantiomer n c)
                          (zip prd_name0s prd_chis)) (\<lambda>prd_names.
              bind_err (format_rxn_name (rct_names, prd_names, third_body)) (\<lambda>s.
                Inr (Some s))))))"

section \<open>Mechanisms\<close>

text \<open>
  \<^verbatim>\<open>pandas.api.types.infer_dtype(column) == "string"\<close>: missing values are skipped,
  and what is left is not empty and holds only strings.
\<close>

definition is_Str :: "'o cell \<Rightarrow> bool" where
  "is_Str c = (case c of Str s \<Rightarrow> True | _ \<Rightarrow> False)"

definition infer_dtype_is_string :: "'o cell list \<Rightarrow> bool" where
  "infer_dtype_is_string col =
     (let present = filter (\<lambda>c. c \<noteq> Null) col in present \<noteq> [] \<and> list_all is_Str present)"

text \<open>
  \<^verbatim>\<open>
  def reactions_with_params_objects(rxn_df):
      if pandas.api.types.infer_dtype(rxn_df["params"]) == "string":
          rxn_df["params"] = rxn_df["params"].apply(
              autoreact.params.RxnParams.from_string
          )
      return rxn_df
  \<close>
  \<^verbatim>\<open>RxnParams.from_string\<close> is a parameter: \<^verbatim>\<open>Series.apply\<close> calls it on every cell
  of the column, and it returns a parameter object or raises. This definition gives
  the table that the frame \<^verbatim>\<open>rxn_df\<close> holds after the call;
  \<open>reactions_with_params_objects_st\<close> below says which frame that is.
\<close>

definition reactions_with_params_objects ::
  "('o cell \<Rightarrow> error + 'o) \<Rightarrow> 'o table \<Rightarrow> error + 'o table" where
  "reactions_with_params_objects from_string rxn_df =
     bind_err (get_column rxn_df ''params'') (\<lambda>col.
       if infer_dtype_is_string col
       then bind_err (mapM_err from_string col) (\<lambda>objs.
              Inr (set_column rxn_df ''params'' (map Obj objs)))
       else Inr rxn_df)"

text \<open>
  \<^verbatim>\<open>
  def mechanism_dict(rxn_df):
      rxn_df = reactions_with_params_objects(rxn_df)
      rxns = rxn_df["name"].map(chemkin_io.parser.reaction.get_rxn_name)
      rxn_dct = dict(zip(rxns, rxn_df["params"]))
      return rxn_dct
  \<close>
  \<^verbatim>\<open>Series.map\<close> gives the parser every cell of the name column, so the parser is a
  parameter on cells here. \<^verbatim>\<open>dict\<close> keeps a key where it was first inserted and
  the value that was inserted last. \<open>mechanism_dict_rest\<close> is the function after its
  first statement.
\<close>

fun dict_set :: "'k \<Rightarrow> 'v \<Rightarrow> ('k \<times> 'v) list \<Rightarrow> ('k \<times> 'v) list" where
  "dict_set k v [] = [(k, v)]"
| "dict_set k v ((k', v') # d) = (if k' = k then (k, v) # d else (k', v') # dict_set k v d)"

definition dict_of :: "('k \<times> 'v) list \<Rightarrow> ('k \<times> 'v) list" where
  "dict_of kvs = foldl (\<lambda>d (k, v). dict_set k v d) [] kvs"

definition mechanism_dict_rest ::
  "('o cell \<Rightarrow> error + 'key) \<Rightarrow> 'o table \<Rightarrow> error + ('key \<times> 'o cell) list" where
  "mechanism_dict_rest get_rxn_name rxn_df =
     bind_err (get_column rxn_df ''name'') (\<lambda>names.
       bind_err (mapM_err get_rxn_name names) (\<lambda>rxns.
         bind_err (get_column rxn_df ''params'') (\<lambda>params.
           Inr (dict_of (zip rxns params)))))"

text \<open>
  \<^verbatim>\<open>
  def species_for_mechanism(spc_df, rxn_dct):
      spc_set = {s for r, p, _ in rxn_dct for s in r + p}
      spc_df = spc_df[spc_df["name"].isin(spc_set)]
      assert (
          set(spc_df["name"]) == spc_set
      ), f'Missing species: {set(spc_df["name"]) - spc_set}'
      return spc_df
  \<close>
  The mechanism dictionary is the list of its items; iterating it yields the keys. A
  cell is in the set of names when it is a string of the set, so the name column of
  the filtered table holds strings only and \<open>strs\<close> is all of it.
\<close>

definition isin :: "string set \<Rightarrow> 'o cell \<Rightarrow> bool" where
  "isin S c = (case c of Str s \<Rightarrow> s \<in> S | _ \<Rightarrow> False)"

fun strs :: "'o cell list \<Rightarrow> string list" where
  "strs [] = []"
| "strs (Str s # cs) = s # strs cs"
| "strs (c # cs) = strs cs"

definition species_for_mechanism ::
  "'o table \<Rightarrow> ((string list \<times> string list \<times> 'tb) \<times> 'p) list \<Rightarrow> error + 'o table" where
  "species_for_mechanism spc_df rxn_dct =
     (let spc_set = set (concat (map (\<lambda>((r, p, third_body), params). r @ p) rxn_dct)) in
      bind_err (get_column spc_df ''name'') (\<lambda>names.
        let spc_df' = select_rows spc_df (map (isin spc_set) names) in
        bind_err (get_column spc_df' ''name'') (\<lambda>names'.
          if set (strs names') = spc_set then Inr spc_df'
          else Inl (AssertionError (Some (set (strs names') - spc_set))))))"

text \<open>
  \<^verbatim>\<open>
  def mechanism_string(rxn_dct, spc_df):
      spc_df["fml"] = spc_df["inchi"].map(automol.chi.formula)
      spc_df = spc_df[~spc_df["name"].duplicated(keep="first")]
      spc_df = spc_df.set_index("name")
      spc_dct = spc_df.to_dict("index")
      mech_str = chemkin_io.writer.mechanism.write_chemkin_file(
          rxn_param_dct=rxn_dct, mech_spc_dct=spc_dct
      )
      return mech_str
  \<close>
  \<^verbatim>\<open>automol.chi.formula\<close> and the writer are parameters. The first statement writes
  into the caller's frame: \<open>mechanism_string_fml\<close> is the table that frame holds after
  it. The other statements work on new frames: \<open>mechanism_string_rest\<close>.
  \<^verbatim>\<open>to_dict("index")\<close> gives, for every row, its name and its other cells under their
  labels.
\<close>

fun duplicated :: "'a list \<Rightarrow> 'a list \<Rightarrow> bool list" where
  "duplicated seen [] = []"
| "duplicated seen (x # xs) = (x \<in> set seen) # duplicated (x # seen) xs"

definition mechanism_string_fml ::
  "('o cell \<Rightarrow> error + 'o cell) \<Rightarrow> 'o table \<Rightarrow> error + 'o table" where
  "mechanism_string_fml formula spc_df =
     bind_err (get_column spc_df ''inchi'') (\<lambda>chis.
       bind_err (mapM_err formula chis) (\<lambda>fmls. Inr (set_column spc_df ''fml'' fmls)))"

definition mechanism_string_rest ::
  "('r \<Rightarrow> ('o cell \<times> (string \<times> 'o cell) list) list \<Rightarrow> error + string)
     \<Rightarrow> 'r \<Rightarrow> 'o table \<Rightarrow> error + string" where
  "mechanism_string_rest write_chemkin_file rxn_dct spc_df =
     bind_err (get_column spc_df ''name'') (\<lambda>names.
       let spc_df' = select_rows spc_df (map Not (duplicated [] names));
           spc_dct = map (\<lambda>r. (cell_at (columns spc_df') r ''name'',
                               filter (\<lambda>(c, v). c \<noteq> ''name'') (zip (columns spc_df') r)))
                       (rows spc_df')
       in write_chemkin_file rxn_dct spc_dct)"

section \<open>The caller's tables\<close>

text \<open>
  Python passes a frame by reference. To say what a call does to the frames of its
  caller, the frames live in a store, a list of tables, and a reference is a position
  of the list. A call takes the store and returns the store it leaves behind together
  with its result or exception.

  \<^verbatim>\<open>reactions_with_params_objects\<close> assigns the parsed column to the frame it was
  given and returns that same frame; an exception of the parser leaves before the
  assignment.
\<close>

type_synonym 'o store = "'o table list"

definition reactions_with_params_objects_st ::
  "('o cell \<Rightarrow> error + 'o) \<Rightarrow> 'o store \<Rightarrow> nat \<Rightarrow> 'o store \<times> (error + nat)" where
  "reactions_with_params_objects_st from_string st rxn_df =
     (case reactions_with_params_objects from_string (st ! rxn_df) of
        Inl e \<Rightarrow> (st, Inl e)
      | Inr t \<Rightarrow> (st[rxn_df := t], Inr rxn_df))"

text \<open>
  \<^verbatim>\<open>mechanism_dict\<close> calls \<^verbatim>\<open>reactions_with_params_objects\<close> on the frame it was
  given and builds the dictionary from that frame.
\<close>

definition mechanism_dict_st ::
  "('o cell \<Rightarrow> error + 'o) \<Rightarrow> ('o cell \<Rightarrow> error + 'key) \<Rightarrow> 'o store \<Rightarrow> nat
     \<Rightarrow> 'o store \<times> (error + ('key \<times> 'o cell) list)" where
  "mechanism_dict_st from_string get_rxn_name st rxn_df =
     (case reactions_with_params_objects_st from_string st rxn_df of
        (st', Inl e) \<Rightarrow> (st', Inl e)
      | (st', Inr rxn_df') \<Rightarrow> (st', mechanism_dict_rest get_rxn_name (st' ! rxn_df')))"

text \<open>
  \<^verbatim>\<open>mechanism_string\<close> assigns the formula column to the frame it was given; from then
  on \<^verbatim>\<open>spc_df\<close> names new frames, which nothing refers to once the call is over.
\<close>

definition mechanism_string_st ::
  "('o cell \<Rightarrow> error + 'o cell)
     \<Rightarrow> ('r \<Rightarrow> ('o cell \<times> (string \<times> 'o cell) list) list \<Rightarrow> error + string)
     \<Rightarrow> 'o store \<Rightarrow> 'r \<Rightarrow> nat \<Rightarrow> 'o store \<times> (error + string)" where
  "mechanism_string_st formula write_chemkin_file st rxn_dct spc_df =
     (case mechanism_string_fml formula (st ! spc_df) of
        Inl e \<Rightarrow> (st, Inl e)
      | Inr t \<Rightarrow> (st[spc_df := t], mechanism_string_rest write_chemkin_file rxn_dct t))"

text \<open>
  \<^verbatim>\<open>with_columns_from_other\<close> drops columns in place, but from the frame that
  \<^verbatim>\<open>pandas.merge\<close> has just made: the result is a new frame of the store.
\<close>

definition with_columns_from_other_st ::
  "'o store \<Rightarrow> nat \<Rightarrow> nat \<Rightarrow> string list \<Rightarrow> 'o store \<times> (error + nat)" where
  "with_columns_from_other_st st df other_df merge_on =
     (case drop_duplicates (st ! other_df) merge_on of
        Inl e \<Rightarrow> (st, Inl e)
      | Inr other_df' \<Rightarrow>
         (case merge_left (st ! df) other_df' merge_on of
            Inl e \<Rightarrow> (st @ [other_df'], Inl e)
          | Inr merged \<Rightarrow>
              ((st @ [other_df', merged])[Suc (length st) := drop_columns merged re_search_y_end],
               Inr (Suc (length st)))))"

text \<open>
  The other functions assign to no frame they are given. The lookups and
  \<^verbatim>\<open>species_for_mechanism\<close> index a frame with a boolean column, which makes a new
  frame of the store; \<^verbatim>\<open>lookup_rows\<close> and \<^verbatim>\<open>species_for_mechanism\<close> return that new
  frame, the other lookups return a row or cells of it.
\<close>

definition lookup_rows_st ::
  "'o store \<Rightarrow> nat \<Rightarrow> (string \<times> 'o cell) list \<Rightarrow> 'o store \<times> (error + nat)" where
  "lookup_rows_st st df col_val_dct =
     (case lookup_rows (st ! df) col_val_dct of
        Inl e \<Rightarrow> (st, Inl e)
      | Inr sel_df \<Rightarrow> (st @ [sel_df], Inr (length st)))"

definition lookup_row_st ::
  "'o store \<Rightarrow> nat \<Rightarrow> (string \<times> 'o cell) list
     \<Rightarrow> 'o store \<times> (error + (string \<times> 'o cell) list)" where
  "lookup_row_st st df col_val_dct =
     (case lookup_rows_st st df col_val_dct of
        (st', Inl e) \<Rightarrow> (st', Inl e)
      | (st', Inr sel_df) \<Rightarrow>
          (st', case rows (st' ! sel_df) of
                  [] \<Rightarrow> Inl IndexError
                | r # rs \<Rightarrow> Inr (zip (columns (st' ! sel_df)) r)))"

definition lookup_value_st ::
  "'o store \<Rightarrow> nat \<Rightarrow> string \<Rightarrow> (string \<times> 'o cell) list \<Rightarrow> 'o store \<times> (error + 'o cell)" where
  "lookup_value_st st df key col_val_dct =
     (case lookup_row_st st df col_val_dct of
        (st', Inl e) \<Rightarrow> (st', Inl e)
      | (st', Inr row) \<Rightarrow> (st', series_get row key))"

text \<open>The comprehension \<^verbatim>\<open>[lookup_row(df, c) for c in col_val_dcts]\<close>, one call after
  the other in the store the call before has left.\<close>

fun lookup_row_each_st ::
  "'o store \<Rightarrow> nat \<Rightarrow> (string \<times> 'o cell) list list
     \<Rightarrow> 'o store \<times> (error + (string \<times> 'o cell) list list)" where
  "lookup_row_each_st st df [] = (st, Inr [])"
| "lookup_row_each_st st df (c # cs) =
     (case lookup_row_st st df c of
        (st', Inl e) \<Rightarrow> (st', Inl e)
      | (st', Inr r) \<Rightarrow>
          (case lookup_row_each_st st' df cs of
             (st'', Inl e) \<Rightarrow> (st'', Inl e)
           | (st'', Inr rs) \<Rightarrow> (st'', Inr (r # rs))))"

definition lookup_value_series_st ::
  "'o store \<Rightarrow> nat \<Rightarrow> string \<Rightarrow> (string \<times> 'o cell) list list
     \<Rightarrow> 'o store \<times> (error + 'o cell list)" where
  "lookup_value_series_st st df key col_val_dcts =
     (case lookup_row_each_st st df col_val_dcts of
        (st', Inl e) \<Rightarrow> (st', Inl e)
      | (st', Inr rs) \<Rightarrow> (st', mapM_err (\<lambda>r. series_get r key) rs))"

definition species_for_mechanism_st ::
  "'o store \<Rightarrow> nat \<Rightarrow> ((string list \<times> string list \<times> 'tb) \<times> 'p) list
     \<Rightarrow> 'o store \<times> (error + nat)" where
  "species_for_mechanism_st st spc_df rxn_dct =
     (let spc_set = set (concat (map (\<lambda>((r, p, third_body), params). r @ p) rxn_dct)) in
      case get_column (st ! spc_df) ''name'' of
        Inl e \<Rightarrow> (st, Inl e)
      | Inr names \<Rightarrow>
          (let spc_df' = select_rows (st ! spc_df) (map (isin spc_set) names) in
           (st @ [spc_df'],
            bind_err (get_column spc_df' ''name'') (\<lambda>names'.
              if set (strs names') = spc_set then Inr (length st)
              else Inl (AssertionError (Some (set (strs names') - spc_set)))))))"

text \<open>
  The species- and reaction-name helpers are given strings and the identifier
  dictionary, which they read; they are given no frame and make none, so a call
  hands the store back as it got it.
\<close>

definition racemic_species_name_st ::
  "(string option \<Rightarrow> error + bool) \<Rightarrow> 'o store \<Rightarrow> string \<Rightarrow> string option
     \<Rightarrow> 'o store \<times> (error + string)" where
  "racemic_species_name_st is_enantiomer st name chi =
     (st, racemic_species_name is_enantiomer name chi)"

definition reflect_species_name_st ::
  "(string option \<Rightarrow> error + bool) \<Rightarrow> 'o store \<Rightarrow> string \<Rightarrow> string option
     \<Rightarrow> 'o store \<times> (error + string)" where
  "reflect_species_name_st is_enantiomer st name chi =
     (st, reflect_species_name is_enantiomer name chi)"

definition chiral_reactant_count_st ::
  "(string option \<Rightarrow> error + bool) \<Rightarrow> (string \<Rightarrow> error + string list \<times> string list \<times> 'tb)
     \<Rightarrow> 'o store \<Rightarrow> string \<Rightarrow> (string \<rightharpoonup> string) \<Rightarrow> 'o store \<times> (error + int)" where
  "chiral_reactant_count_st is_enantiomer get_rxn_name st name chi_dct =
     (st, chiral_reactant_count is_enantiomer get_rxn_name name chi_dct)"

definition racemic_reaction_name_st ::
  "(string option \<Rightarrow> error + bool) \<Rightarrow> (string \<Rightarrow> error + string list \<times> string list \<times> 'tb)
     \<Rightarrow> (string list \<times> string list \<times> 'tb \<Rightarrow> error + string)
     \<Rightarrow> 'o store \<Rightarrow> string \<Rightarrow> (string \<rightharpoonup> string) \<Rightarrow> 'o store \<times> (error + string)" where
  "racemic_reaction_name_st is_enantiomer get_rxn_name format_rxn_name st name chi_dct =
     (st, racemic_reaction_name is_enantiomer get_rxn_name format_rxn_name name chi_dct)"

definition reflect_reaction_name_st ::
  "(string option \<Rightarrow> error + bool)
     \<Rightarrow> (string option list \<Rightarrow> string option list \<Rightarrow> error + bool)
     \<Rightarrow> (string \<Rightarrow> error + string list \<times> string list \<times> 'tb)
     \<Rightarrow> (string list \<times> string list \<times> 'tb \<Rightarrow> error + string)
     \<Rightarrow> 'o store \<Rightarrow> string \<Rightarrow> (string \<rightharpoonup> string)
     \<Rightarrow> 'o store \<times> (error + string option)" where
  "reflect_reaction_name_st is_enantiomer is_enantiomer_reaction get_rxn_name format_rxn_name
       st name chi_dct =
     (st, reflect_reaction_name is_enantiomer is_enantiomer_reaction get_rxn_name
            format_rxn_name name chi_dct)"

section \<open>Properties of the string helpers\<close>

lemma bind_err_Inr [simp]: "bind_err (Inr x) f = f x"
  by (simp add: bind_err_def)

lemma bind_err_Inl [simp]: "bind_err (Inl e) f = Inl e"
  by (simp add: bind_err_def)

lemma endswith_single: "endswith s [d] \<longleftrightarrow> s \<noteq> [] \<and> last s = d"
proof (cases s rule: rev_cases)
  case Nil
  then show ?thesis by (simp add: endswith_def)
next
  case (snoc xs x)
  then show ?thesis by (auto simp: endswith_def)
qed

lemma re_sub_end_last:
  "cls d \<Longrightarrow> d \<noteq> newline \<Longrightarrow> re_sub_end cls repl (xs @ [d]) = xs @ repl"
proof (induction xs)
  case Nil
  then show ?case by simp
next
  case (Cons x xs)
  have "xs @ [d] \<noteq> [newline]"
    using Cons.prems(2) by (cases xs) auto
  with Cons show ?case by simp
qed

lemma digits_not_newline: "CHR ''0'' \<noteq> newline" "CHR ''1'' \<noteq> newline"
  by (simp_all add: newline_def)

section \<open>Racemic and mirror-image species names\<close>

lemma racemic_chiral:
  assumes "is_enantiomer chi = Inr True" and "d = CHR ''0'' \<or> d = CHR ''1''"
  shows "racemic_species_name is_enantiomer (x @ [d]) chi = Inr (x @ ''r'')"
proof -
  have e: "endswith (x @ [d]) ''0'' \<or> endswith (x @ [d]) ''1''"
    using assms(2) by (auto simp: endswith_single)
  have n: "d \<noteq> newline"
    using assms(2) digits_not_newline by auto
  have "re_sub_end (\<lambda>c. c = CHR ''0'' \<or> c = CHR ''1'') ''r'' (x @ [d]) = x @ ''r''"
    using assms(2) n by (intro re_sub_end_last) auto
  with e assms(1) show ?thesis
    by (simp add: racemic_species_name_def)
qed

lemma reflect_chiral_0:
  assumes "is_enantiomer chi = Inr True"
  shows "reflect_species_name is_enantiomer (x @ ''0'') chi = Inr (x @ ''1'')"
proof -
  have "re_sub_end (\<lambda>c. c = CHR ''0'') ''1'' (x @ ''0'') = x @ ''1''"
    by (intro re_sub_end_last) (simp_all add: digits_not_newline)
  with assms show ?thesis
    by (simp add: reflect_species_name_def endswith_single)
qed

lemma reflect_chiral_1:
  assumes "is_enantiomer chi = Inr True"
  shows "reflect_species_name is_enantiomer (x @ ''1'') chi = Inr (x @ ''0'')"
proof -
  have "re_sub_end (\<lambda>c. c = CHR ''1'') ''0'' (x @ ''1'') = x @ ''0''"
    by (intro re_sub_end_last) (simp_all add: digits_not_newline)
  with assms show ?thesis
    by (simp add: reflect_species_name_def endswith_single)
qed

lemma reflect_achiral:
  "is_enantiomer chi = Inr False \<Longrightarrow> reflect_species_name is_enantiomer name chi = Inr name"
  by (simp add: reflect_species_name_def)

lemma reflect_returns_cases:
  assumes "reflect_species_name is_enantiomer name chi = Inr name'"
  shows "(is_enantiomer chi = Inr False \<and> name' = name) \<or>
         (is_enantiomer chi = Inr True \<and>
            (\<exists>x. (name = x @ ''0'' \<and> name' = x @ ''1'') \<or> (name = x @ ''1'' \<and> name' = x @ ''0'')))"
proof (cases "is_enantiomer chi")
  case (Inl e)
  with assms show ?thesis by (simp add: reflect_species_name_def)
next
  case (Inr b)
  show ?thesis
  proof (cases b)
    case False
    with Inr assms show ?thesis by (simp add: reflect_species_name_def)
  next
    case True
    with Inr have chiral: "is_enantiomer chi = Inr True" by simp
    from assms chiral have e: "endswith name ''0'' \<or> endswith name ''1''"
      by (auto simp: reflect_species_name_def split: if_splits)
    then obtain x d where nm: "name = x @ [d]" and d: "d = CHR ''0'' \<or> d = CHR ''1''"
      by (metis append_butlast_last_id endswith_single)
    from d show ?thesis
    proof
      assume "d = CHR ''0''"
      with nm assms reflect_chiral_0 [of is_enantiomer chi x] chiral show ?thesis by auto
    next
      assume "d = CHR ''1''"
      with nm assms reflect_chiral_1 [of is_enantiomer chi x] chiral show ?thesis by auto
    qed
  qed
qed

text \<open>
  Claim C2. When the identifier is not chiral, \<^verbatim>\<open>racemic_species_name\<close> returns the name
  unchanged. When it is chiral, the call fails its assertion unless the name ends in
  \<^verbatim>\<open>"0"\<close> or \<^verbatim>\<open>"1"\<close>, and otherwise the result is the name with that last digit
  replaced by \<^verbatim>\<open>"r"\<close>; so both \<^verbatim>\<open>X0\<close> and \<^verbatim>\<open>X1\<close> give \<^verbatim>\<open>Xr\<close>. (An exception of
  the chirality predicate itself is passed on.)
\<close>

theorem racemic_species_name_spec:
  "(is_enantiomer chi = Inr False \<longrightarrow>
      racemic_species_name is_enantiomer name chi = Inr name) \<and>
   (is_enantiomer chi = Inr True \<longrightarrow>
      (\<not> (endswith name ''0'' \<or> endswith name ''1'') \<longrightarrow>
         racemic_species_name is_enantiomer name chi = Inl (AssertionError None)) \<and>
      (endswith name ''0'' \<or> endswith name ''1'' \<longrightarrow>
         racemic_species_name is_enantiomer name chi = Inr (butlast name @ ''r'')) \<and>
      racemic_species_name is_enantiomer (x @ ''0'') chi = Inr (x @ ''r'') \<and>
      racemic_species_name is_enantiomer (x @ ''1'') chi = Inr (x @ ''r'')) \<and>
   (is_enantiomer chi = Inl e \<longrightarrow> racemic_species_name is_enantiomer name chi = Inl e)"
proof (intro conjI impI)
  assume "is_enantiomer chi = Inr False"
  then show "racemic_species_name is_enantiomer name chi = Inr name"
    by (simp add: racemic_species_name_def)
next
  assume "is_enantiomer chi = Inr True" and "\<not> (endswith name ''0'' \<or> endswith name ''1'')"
  then show "racemic_species_name is_enantiomer name chi = Inl (AssertionError None)"
    by (simp add: racemic_species_name_def)
next
  assume chiral: "is_enantiomer chi = Inr True"
    and e: "endswith name ''0'' \<or> endswith name ''1''"
  then obtain d where nm: "name = butlast name @ [d]" and d: "d = CHR ''0'' \<or> d = CHR ''1''"
    by (metis append_butlast_last_id endswith_single)
  from racemic_chiral [of is_enantiomer chi d "butlast name"] chiral d nm
  show "racemic_species_name is_enantiomer name chi = Inr (butlast name @ ''r'')"
    by simp
next
  assume "is_enantiomer chi = Inr True"
  then show "racemic_species_name is_enantiomer (x @ ''0'') chi = Inr (x @ ''r'')"
    by (intro racemic_chiral) simp_all
next
  assume "is_enantiomer chi = Inr True"
  then show "racemic_species_name is_enantiomer (x @ ''1'') chi = Inr (x @ ''r'')"
    by (intro racemic_chiral) simp_all
next
  assume "is_enantiomer chi = Inl e"
  then show "racemic_species_name is_enantiomer name chi = Inl e"
    by (simp add: racemic_species_name_def)
qed

theorem racemic_species_name_spec_witness:
  "racemic_species_name (\<lambda>c. Inr (c = Some ''chiral'')) ''CH4'' (Some ''flat'') = Inr ''CH4'' \<and>
   racemic_species_name (\<lambda>c. Inr (c = Some ''chiral'')) ''CH4'' (Some ''chiral'')
     = Inl (AssertionError None) \<and>
   racemic_species_name (\<lambda>c. Inr (c = Some ''chiral'')) ''X0'' (Some ''chiral'') = Inr ''Xr'' \<and>
   racemic_species_name (\<lambda>c. Inr (c = Some ''chiral'')) ''X1'' (Some ''chiral'') = Inr ''Xr'' \<and>
   racemic_species_name (\<lambda>c. Inl (ExternalError 0)) ''X1'' (Some ''chiral'')
     = Inl (ExternalError 0)"
  using
    racemic_species_name_spec [of "\<lambda>c. Inr (c = Some ''chiral'')" "Some ''flat''" "''CH4''"]
    racemic_species_name_spec [of "\<lambda>c. Inr (c = Some ''chiral'')" "Some ''chiral''" "''CH4''" "''X''"]
    racemic_species_name_spec [of "\<lambda>c. Inl (ExternalError 0)" "Some ''chiral''" "''X1''" _ "ExternalError 0"]
  by (simp add: endswith_def)

text \<open>
  Claim C3. For a chiral identifier \<^verbatim>\<open>reflect_species_name\<close> maps \<^verbatim>\<open>X0\<close> to \<^verbatim>\<open>X1\<close> and
  \<^verbatim>\<open>X1\<close> to \<^verbatim>\<open>X0\<close>; for an identifier that is not chiral it returns the name
  unchanged; and whenever an application returns a name, a second application with the
  same identifier returns the original name.
\<close>

theorem reflect_species_name_involution:
  "(is_enantiomer chi = Inr True \<longrightarrow>
      reflect_species_name is_enantiomer (x @ ''0'') chi = Inr (x @ ''1'') \<and>
      reflect_species_name is_enantiomer (x @ ''1'') chi = Inr (x @ ''0'')) \<and>
   (is_enantiomer chi = Inr False \<longrightarrow>
      reflect_species_name is_enantiomer name chi = Inr name) \<and>
   (reflect_species_name is_enantiomer name chi = Inr name' \<longrightarrow>
      reflect_species_name is_enantiomer name' chi = Inr name)"
proof (intro conjI impI)
  assume "is_enantiomer chi = Inr True"
  then show "reflect_species_name is_enantiomer (x @ ''0'') chi = Inr (x @ ''1'')"
    by (rule reflect_chiral_0)
next
  assume "is_enantiomer chi = Inr True"
  then show "reflect_species_name is_enantiomer (x @ ''1'') chi = Inr (x @ ''0'')"
    by (rule reflect_chiral_1)
next
  assume "is_enantiomer chi = Inr False"
  then show "reflect_species_name is_enantiomer name chi = Inr name"
    by (rule reflect_achiral)
next
  assume "reflect_species_name is_enantiomer name chi = Inr name'"
  from reflect_returns_cases [OF this]
  show "reflect_species_name is_enantiomer name' chi = Inr name"
    by (auto simp: reflect_achiral reflect_chiral_0 reflect_chiral_1)
qed

theorem reflect_species_name_involution_witness:
  "reflect_species_name (\<lambda>c. Inr (c = Some ''chiral'')) ''X0'' (Some ''chiral'') = Inr ''X1'' \<and>
   reflect_species_name (\<lambda>c. Inr (c = Some ''chiral'')) ''X1'' (Some ''chiral'') = Inr ''X0'' \<and>
   reflect_species_name (\<lambda>c. Inr (c = Some ''chiral'')) ''CH4'' (Some ''flat'') = Inr ''CH4''"
  using
    reflect_species_name_involution
      [of "\<lambda>c. Inr (c = Some ''chiral'')" "Some ''chiral''" "''X''" "''X0''" "''X1''"]
    reflect_species_name_involution
      [of "\<lambda>c. Inr (c = Some ''chiral'')" "Some ''flat''" "''X''" "''CH4''" "''CH4''"]
  by simp

section \<open>Cells of a row\<close>

lemma cell_at_Nil [simp]: "cell_at [] r k = Null" "cell_at cs [] k = Null"
  by (simp_all add: cell_at_def)

lemma cell_at_Cons [simp]:
  "cell_at (c # cs) (x # r) k = (if k = c then x else cell_at cs r k)"
  by (simp add: cell_at_def)

lemma cell_at_absent: "k \<notin> set cs \<Longrightarrow> cell_at cs r k = Null"
proof -
  assume "k \<notin> set cs"
  then have "map_of (zip cs r) k = None"
    by (auto simp: map_of_eq_None_iff dest: set_zip_leftD)
  then show ?thesis
    by (simp add: cell_at_def)
qed

section \<open>Lookups with no predicate\<close>

lemma mapM_err_fails:
  "x \<in> set xs \<Longrightarrow> f x = Inl e \<Longrightarrow> \<exists>e'. mapM_err f xs = Inl e'"
proof (induction xs)
  case Nil
  then show ?case by simp
next
  case (Cons y ys)
  show ?case
  proof (cases "f y")
    case (Inl a)
    then show ?thesis by simp
  next
    case (Inr b)
    show ?thesis
    proof (cases "x = y")
      case True
      with Cons.prems Inr show ?thesis by simp
    next
      case False
      with Cons obtain e' where "mapM_err f ys = Inl e'" by auto
      with Inr show ?thesis by simp
    qed
  qed
qed

lemma lookup_rows_empty: "lookup_rows df [] = Inl TypeError"
  by (simp add: lookup_rows_def reduce_def)

lemma lookup_row_empty: "lookup_row df [] = Inl TypeError"
  by (simp add: lookup_row_def lookup_rows_empty)

text \<open>
  Claim C8. With an empty predicate map \<^verbatim>\<open>lookup_rows\<close> raises (the \<^verbatim>\<open>TypeError\<close> of
  \<^verbatim>\<open>functools.reduce\<close> on an empty list without initial value) instead of returning
  the whole table, and so do \<^verbatim>\<open>lookup_row\<close> and \<^verbatim>\<open>lookup_value\<close>;
  \<^verbatim>\<open>lookup_value_series\<close> raises as soon as one of its predicate maps is empty.
\<close>

theorem lookup_empty_predicate_map_raises:
  "lookup_rows df [] = Inl TypeError \<and>
   lookup_row df [] = Inl TypeError \<and>
   lookup_value df key [] = Inl TypeError \<and>
   lookup_value_series df key ([] # dcts) = Inl TypeError \<and>
   ([] \<in> set dcts \<longrightarrow> (\<exists>e. lookup_value_series df key dcts = Inl e))"
proof (intro conjI impI)
  show "lookup_rows df [] = Inl TypeError"
    by (rule lookup_rows_empty)
  show "lookup_row df [] = Inl TypeError"
    by (rule lookup_row_empty)
  show "lookup_value df key [] = Inl TypeError"
    by (simp add: lookup_value_def lookup_row_empty)
  show "lookup_value_series df key ([] # dcts) = Inl TypeError"
    by (simp add: lookup_value_series_def lookup_row_empty)
next
  assume "[] \<in> set dcts"
  from mapM_err_fails [of "[]" dcts "lookup_row df" TypeError] this lookup_row_empty [of df]
  obtain e where "mapM_err (lookup_row df) dcts = Inl e" by blast
  then show "\<exists>e. lookup_value_series df key dcts = Inl e"
    by (simp add: lookup_value_series_def)
qed

theorem lookup_empty_predicate_map_raises_witness:
  "[] \<in> set [[(''name'', Str ''A'')], []] \<and>
   (\<exists>e. lookup_value_series \<lparr>columns = [''name'', ''mult''], rows = [[Str ''A'', Num 1 :: unit cell]]\<rparr>
          ''mult'' [[(''name'', Str ''A'')], []] = Inl e) \<and>
   lookup_rows \<lparr>columns = [''name'', ''mult''], rows = [[Str ''A'', Num 1 :: unit cell]]\<rparr> [] = Inl TypeError"
  using lookup_empty_predicate_map_raises
    [of "\<lparr>columns = [''name'', ''mult''], rows = [[Str ''A'', Num 1 :: unit cell]]\<rparr>" "''mult''"
        "[[(''name'', Str ''A'')], []]"]
  by simp

section \<open>The species of a mechanism\<close>

lemma filter_zip_map: "map fst (filter snd (zip xs (map g xs))) = filter g xs"
  by (induction xs) auto

lemma rows_select_rows [simp]:
  "rows (select_rows df sel) = map fst (filter snd (zip (rows df) sel))"
  by (simp add: select_rows_def)

lemma columns_select_rows [simp]: "columns (select_rows df sel) = columns df"
  by (simp add: select_rows_def)

lemma strs_filter_isin: "strs (filter (isin S) cs) = filter (\<lambda>s. s \<in> S) (strs cs)"
proof (induction cs)
  case Nil
  then show ?case by simp
next
  case (Cons c cs)
  then show ?case by (cases c) (simp_all add: isin_def)
qed

lemma select_isin_column:
  assumes "get_column df k = Inr names"
  shows "get_column (select_rows df (map (isin S) names)) k = Inr (filter (isin S) names)"
proof -
  from assms have k: "k \<in> set (columns df)"
    and names: "names = map (\<lambda>r. cell_at (columns df) r k) (rows df)"
    by (auto simp: get_column_def split: if_splits)
  have "map fst (filter snd (zip (rows df) (map (isin S) names)))
        = filter (\<lambda>r. isin S (cell_at (columns df) r k)) (rows df)"
    unfolding names map_map
    using filter_zip_map [of "rows df" "\<lambda>r. isin S (cell_at (columns df) r k)"]
    by (simp add: comp_def)
  with k show ?thesis
    by (simp add: get_column_def names filter_map comp_def)
qed

text \<open>
  What \<^verbatim>\<open>species_for_mechanism\<close> does on a table with a name column: it returns the
  rows whose name the mechanism refers to when every such name is in the table, and
  fails its assertion otherwise. The set in the assertion's message is
  \<^verbatim>\<open>set(spc_df["name"]) - spc_set\<close>, taken after the table has been filtered to
  \<^verbatim>\<open>spc_set\<close>: it is empty whatever is missing.
\<close>

lemma species_for_mechanism_char:
  assumes "get_column spc_df ''name'' = Inr names"
  shows "species_for_mechanism spc_df rxn_dct =
     (if set (concat (map (\<lambda>((r, p, third_body), params). r @ p) rxn_dct)) \<subseteq> set (strs names)
      then Inr (select_rows spc_df
             (map (isin (set (concat (map (\<lambda>((r, p, third_body), params). r @ p) rxn_dct))))
                names))
      else Inl (AssertionError (Some {})))"
proof -
  define S where "S = set (concat (map (\<lambda>((r, p, third_body), params). r @ p) rxn_dct))"
  have sel: "get_column (select_rows spc_df (map (isin S) names)) ''name''
             = Inr (filter (isin S) names)"
    using assms by (rule select_isin_column)
  have st: "set (strs (filter (isin S) names)) = set (strs names) \<inter> S"
    by (auto simp: strs_filter_isin)
  have "species_for_mechanism spc_df rxn_dct =
     (if set (strs names) \<inter> S = S then Inr (select_rows spc_df (map (isin S) names))
      else Inl (AssertionError (Some (set (strs names) \<inter> S - S))))"
    unfolding species_for_mechanism_def S_def [symmetric] Let_def
    by (simp add: assms sel st)
  moreover have "set (strs names) \<inter> S = S \<longleftrightarrow> S \<subseteq> set (strs names)" by blast
  moreover have "set (strs names) \<inter> S - S = {}" by blast
  ultimately show ?thesis unfolding S_def by simp
qed

lemma species_for_mechanism_no_name_column:
  "''name'' \<notin> set (columns spc_df) \<Longrightarrow>
     species_for_mechanism spc_df rxn_dct = Inl (KeyError {''name''})"
  by (simp add: species_for_mechanism_def get_column_def)

text \<open>
  Claim C1. When a species name that a mechanism key refers to is absent from the name
  column, \<^verbatim>\<open>species_for_mechanism\<close> raises an assertion error whose message carries the
  set of missing names. The code raises, but the set in the message is empty: for the
  mechanism that refers to \<^verbatim>\<open>A\<close> and \<^verbatim>\<open>B\<close> and the species table that holds only
  \<^verbatim>\<open>A\<close>, the message is \<^verbatim>\<open>Missing species: set()\<close> and does not name \<^verbatim>\<open>B\<close>.
\<close>

theorem species_for_mechanism_message_is_empty:
  "species_for_mechanism
     \<lparr>columns = [''name'', ''inchi''], rows = [[Str ''A'', Str ''InChI=1S/A'' :: unit cell]]\<rparr>
     [(([''A''], [''B''], None :: string option), 0 :: nat)]
   = Inl (AssertionError (Some {})) \<and>
   species_for_mechanism
     \<lparr>columns = [''name'', ''inchi''], rows = [[Str ''A'', Str ''InChI=1S/A'' :: unit cell]]\<rparr>
     [(([''A''], [''B''], None :: string option), 0 :: nat)]
   \<noteq> Inl (AssertionError (Some {''B''}))"
  by (simp add: species_for_mechanism_def get_column_def select_rows_def isin_def cell_at_def)

section \<open>Adding columns: rows and dropped columns\<close>

lemma drop_dups_keys:
  "distinct (map key (drop_dups key seen rs)) \<and>
   set (map key (drop_dups key seen rs)) \<inter> set seen = {}"
proof (induction rs arbitrary: seen)
  case Nil
  then show ?case by simp
next
  case (Cons r rs)
  show ?case
  proof (cases "key r \<in> set seen")
    case True
    with Cons [of seen] show ?thesis by simp
  next
    case False
    with Cons [of "key r # seen"] show ?thesis by auto
  qed
qed

lemma drop_duplicates_result:
  assumes "drop_duplicates df keys = Inr df'"
  shows "columns df' = columns df"
    and "distinct (map (key_of (columns df') keys) (rows df')) \<or> rows df' = [] \<or> columns df' = []"
  using assms drop_dups_keys [of "key_of (columns df) keys" "[]" "rows df"]
  by (auto simp: drop_duplicates_def split: if_splits)

lemma filter_distinct_key:
  "distinct (map key rs) \<Longrightarrow> length (filter (\<lambda>r. key r = k) rs) \<le> 1"
proof (induction rs)
  case Nil
  then show ?case by simp
next
  case (Cons r rs)
  show ?case
  proof (cases "key r = k")
    case True
    with Cons.prems have "filter (\<lambda>r. key r = k) rs = []"
      by (auto simp: filter_empty_conv) (metis image_eqI)
    with True show ?thesis by simp
  next
    case False
    with Cons show ?thesis by simp
  qed
qed

lemma join_row_single:
  assumes "distinct (map (key_of rcols keys) rrows)"
  shows "length (join_row lcols rcols keys extra rrows l) = 1"
proof -
  let ?ms = "filter (\<lambda>r. key_of rcols keys r = key_of lcols keys l) rrows"
  have "length ?ms \<le> 1"
    using assms by (rule filter_distinct_key)
  then have "?ms = [] \<or> length ?ms = 1"
    by (cases ?ms) auto
  then show ?thesis
    by (auto simp: join_row_def Let_def)
qed

lemma length_concat_singles:
  "(\<And>x. x \<in> set xs \<Longrightarrow> length (f x) = 1) \<Longrightarrow> length (concat (map f xs)) = length xs"
  by (induction xs) auto

lemma merge_left_row_count:
  assumes "merge_left left right keys = Inr merged"
    and "distinct (map (key_of (columns right) keys) (rows right))"
  shows "length (rows merged) = length (rows left)"
proof -
  from assms(1) have "rows merged =
      concat (map (join_row (columns left) (columns right) keys
                     (filter (\<lambda>c. c \<notin> set keys) (columns right)) (rows right)) (rows left))"
    by (auto simp: merge_left_def Let_def split: if_splits option.splits)
  then show ?thesis
    using join_row_single [OF assms(2)] by (simp add: length_concat_singles)
qed

lemma merge_left_needs_columns:
  "merge_left left right keys = Inr merged \<Longrightarrow> columns right \<noteq> []"
  by (cases keys) (auto simp: merge_left_def missing_key_def Let_def split: if_splits option.splits list.splits)

lemma rows_drop_columns: "length (rows (drop_columns df dropped)) = length (rows df)"
  by (simp add: drop_columns_def)

lemma columns_drop_columns: "columns (drop_columns df dropped) = filter (\<lambda>c. \<not> dropped c) (columns df)"
  by (simp add: drop_columns_def)

lemma with_columns_from_other_row_count:
  assumes "with_columns_from_other df other_df merge_on = Inr res"
  shows "length (rows res) = length (rows df)"
proof -
  from assms obtain other_df' merged where
    d: "drop_duplicates other_df merge_on = Inr other_df'" and
    m: "merge_left df other_df' merge_on = Inr merged" and
    r: "res = drop_columns merged re_search_y_end"
    by (auto simp: with_columns_from_other_def bind_err_def split: sum.splits)
  have "columns other_df' \<noteq> []"
    using m by (rule merge_left_needs_columns)
  with drop_duplicates_result(2) [OF d]
  have "distinct (map (key_of (columns other_df') merge_on) (rows other_df'))"
    by auto
  with m have "length (rows merged) = length (rows df)"
    by (rule merge_left_row_count)
  with r show ?thesis by (simp add: rows_drop_columns)
qed

lemma with_columns_from_other_no_y:
  assumes "with_columns_from_other df other_df merge_on = Inr res"
  shows "list_all (\<lambda>c. \<not> re_search_y_end c) (columns res)"
  using assms
  by (auto simp: with_columns_from_other_def bind_err_def columns_drop_columns list_all_iff split: sum.splits)


lemma endswith_append: "endswith (c @ suf) suf"
  by (simp add: endswith_def)

lemma added_labels:
  "filter (\<lambda>c. \<not> re_search_y_end c) (map (\<lambda>c. if c \<in> L then c @ ''_y'' else c) extra)
   = filter (\<lambda>c. \<not> re_search_y_end c) (filter (\<lambda>c. c \<notin> L) extra)"
proof (induction extra)
  case Nil
  then show ?case by simp
next
  case (Cons c extra)
  have "re_search_y_end (c @ ''_y'')"
    unfolding re_search_y_end_def using endswith_append [of c "''_y''"] by simp
  with Cons show ?case by simp
qed

text \<open>
  The columns of the result: the columns of the first table that do not end in
  \<^verbatim>\<open>_y\<close>, then the columns of the other table that are no merge key, are no column
  of the first table and do not end in \<^verbatim>\<open>_y\<close>.
\<close>

lemma with_columns_from_other_columns:
  assumes "with_columns_from_other df other_df merge_on = Inr res"
  shows "columns res =
     filter (\<lambda>c. \<not> re_search_y_end c) (columns df) @
     filter (\<lambda>c. \<not> re_search_y_end c)
       (filter (\<lambda>c. c \<notin> set (columns df)) (filter (\<lambda>c. c \<notin> set merge_on) (columns other_df)))"
proof -
  from assms obtain other_df' merged where
    d: "drop_duplicates other_df merge_on = Inr other_df'" and
    m: "merge_left df other_df' merge_on = Inr merged" and
    r: "res = drop_columns merged re_search_y_end"
    by (auto simp: with_columns_from_other_def bind_err_def split: sum.splits)
  from m have "columns merged = columns df @
      map (\<lambda>c. if c \<in> set (columns df) then c @ ''_y'' else c)
        (filter (\<lambda>c. c \<notin> set merge_on) (columns other_df'))"
    by (auto simp: merge_left_def Let_def split: if_splits option.splits)
  with r drop_duplicates_result(1) [OF d] show ?thesis
    by (simp add: columns_drop_columns added_labels)
qed

lemma cell_at_kept_columns:
  "\<not> dropped c \<Longrightarrow>
   cell_at (filter (\<lambda>c. \<not> dropped c) cs)
     (map snd (filter (\<lambda>(c, v). \<not> dropped c) (zip cs r))) c = cell_at cs r c"
proof (induction cs arbitrary: r)
  case Nil
  then show ?case by simp
next
  case (Cons a cs)
  show ?case
  proof (cases r)
    case Nil
    then show ?thesis
      by simp
  next
    case (Cons x r')
    with Cons.IH [OF Cons.prems, of r'] Cons.prems show ?thesis by auto
  qed
qed

lemma cell_at_left_part:
  "length l = length cs \<Longrightarrow> c \<in> set cs \<Longrightarrow> cell_at (cs @ cs') (l @ x) c = cell_at cs l c"
proof (induction l cs rule: list_induct2)
  case Nil
  then show ?case by simp
next
  case (Cons v l a cs)
  then show ?case by auto
qed

lemma join_row_extends:
  assumes "distinct (map (key_of rcols keys) rrows)"
  shows "\<exists>x. join_row lcols rcols keys extra rrows l = [l @ x]"
proof -
  let ?ms = "filter (\<lambda>r. key_of rcols keys r = key_of lcols keys l) rrows"
  have "length ?ms \<le> 1"
    using assms by (rule filter_distinct_key)
  then have "?ms = [] \<or> (\<exists>m. ?ms = [m])"
    by (cases ?ms) auto
  then show ?thesis
    by (auto simp: join_row_def Let_def)
qed

lemma concat_extends:
  "(\<And>l. l \<in> set ls \<Longrightarrow> \<exists>x. f l = [l @ x]) \<Longrightarrow>
     list_all2 (\<lambda>l m. \<exists>x. m = l @ x) ls (concat (map f ls))"
proof (induction ls)
  case Nil
  then show ?case by simp
next
  case (Cons l ls)
  from Cons.prems [of l] obtain x where "f l = [l @ x]" by auto
  with Cons show ?case by auto
qed

text \<open>
  A column of the first table whose label does not end in \<^verbatim>\<open>_y\<close> comes back with the
  values it had.
\<close>

lemma with_columns_from_other_keeps_values:
  assumes "with_columns_from_other df other_df merge_on = Inr res"
    and "wf_table df" and "c \<in> set (columns df)" and "\<not> re_search_y_end c"
  shows "get_column res c = get_column df c"
proof -
  from assms(1) obtain other_df' merged where
    d: "drop_duplicates other_df merge_on = Inr other_df'" and
    m: "merge_left df other_df' merge_on = Inr merged" and
    r: "res = drop_columns merged re_search_y_end"
    by (auto simp: with_columns_from_other_def bind_err_def split: sum.splits)
  have "columns other_df' \<noteq> []"
    using m by (rule merge_left_needs_columns)
  with drop_duplicates_result(2) [OF d]
  have dist: "distinct (map (key_of (columns other_df') merge_on) (rows other_df'))"
    by auto
  from m obtain rl extra where cm: "columns merged = columns df @ rl"
    and rm: "rows merged = concat (map (join_row (columns df) (columns other_df') merge_on extra
                                          (rows other_df')) (rows df))"
    by (auto simp: merge_left_def Let_def split: if_splits option.splits)
  have ext: "list_all2 (\<lambda>l m. \<exists>x. m = l @ x) (rows df) (rows merged)"
    unfolding rm using join_row_extends [OF dist] by (intro concat_extends) blast
  have len: "\<And>l. l \<in> set (rows df) \<Longrightarrow> length l = length (columns df)"
    using assms(2) by (auto simp: wf_table_def list_all_iff)
  have "list_all2 (\<lambda>l m. cell_at (columns merged) m c = cell_at (columns df) l c)
          (rows df) (rows merged)"
    using ext len assms(3)
    by (auto simp: cm list_all2_conv_all_nth cell_at_left_part)
  then have cells: "map (\<lambda>m. cell_at (columns merged) m c) (rows merged)
                    = map (\<lambda>l. cell_at (columns df) l c) (rows df)"
    by (auto simp: list_all2_conv_all_nth intro: nth_equalityI)
  have "c \<in> set (columns res)"
    using assms(3,4) by (simp add: r columns_drop_columns cm)
  moreover have "map (\<lambda>x. cell_at (columns res) x c) (rows res)
                 = map (\<lambda>m. cell_at (columns merged) m c) (rows merged)"
    using assms(4) by (simp add: r drop_columns_def cell_at_kept_columns comp_def)
  ultimately show ?thesis
    using cells assms(3) by (simp add: get_column_def)
qed

text \<open>
  Claim C10. Every column of the merged table whose label ends in \<^verbatim>\<open>_y\<close> is dropped, so
  the result has no such column, and a column of the first table whose label ends in
  \<^verbatim>\<open>_y\<close> is removed even when no label collided in the merge: the first table with
  the columns \<^verbatim>\<open>k\<close> and \<^verbatim>\<open>a_y\<close>, merged on \<^verbatim>\<open>k\<close> with a table with the columns \<^verbatim>\<open>k\<close> and
  \<^verbatim>\<open>b\<close>, comes back with the columns \<^verbatim>\<open>k\<close> and \<^verbatim>\<open>b\<close>.
\<close>

theorem with_columns_from_other_drops_y_columns:
  "(with_columns_from_other df other_df merge_on = Inr res \<longrightarrow>
      list_all (\<lambda>c. \<not> re_search_y_end c) (columns res) \<and>
      (\<forall>c \<in> set (columns df). re_search_y_end c \<longrightarrow> c \<notin> set (columns res))) \<and>
   with_columns_from_other
     \<lparr>columns = [''k'', ''a_y''], rows = [[Num 1, Str ''u''], [Num 2, Str ''v'' :: unit cell]]\<rparr>
     \<lparr>columns = [''k'', ''b''], rows = [[Num 1, Str ''p'']]\<rparr> [''k'']
   = Inr \<lparr>columns = [''k'', ''b''], rows = [[Num 1, Str ''p''], [Num 2, Null]]\<rparr>"
proof (intro conjI impI)
  assume a: "with_columns_from_other df other_df merge_on = Inr res"
  then show no_y: "list_all (\<lambda>c. \<not> re_search_y_end c) (columns res)"
    by (rule with_columns_from_other_no_y)
  then show "\<forall>c \<in> set (columns df). re_search_y_end c \<longrightarrow> c \<notin> set (columns res)"
    by (auto simp: list_all_iff)
next
  show "with_columns_from_other
     \<lparr>columns = [''k'', ''a_y''], rows = [[Num 1, Str ''u''], [Num 2, Str ''v'' :: unit cell]]\<rparr>
     \<lparr>columns = [''k'', ''b''], rows = [[Num 1, Str ''p'']]\<rparr> [''k'']
   = Inr \<lparr>columns = [''k'', ''b''], rows = [[Num 1, Str ''p''], [Num 2, Null]]\<rparr>"
    by (simp add: with_columns_from_other_def drop_duplicates_def key_of_def cell_at_def
        merge_left_def missing_key_def join_row_def drop_columns_def re_search_y_end_def
        endswith_def newline_def)
qed

theorem with_columns_from_other_drops_y_columns_witness:
  "re_search_y_end ''a_y'' \<and>
   ''a_y'' \<in> set (columns \<lparr>columns = [''k'', ''a_y''],
                  rows = [[Num 1, Str ''u''], [Num 2, Str ''v'' :: unit cell]]\<rparr>) \<and>
   ''a_y'' \<notin> set (columns \<lparr>columns = [''k'', ''b''], rows = [[Num 1, Str ''p'' :: unit cell]]\<rparr>) \<and>
   ''a_y'' \<notin> set (columns \<lparr>columns = [''k'', ''b''],
                  rows = [[Num 1, Str ''p''], [Num 2, Null :: unit cell]]\<rparr>)"
  using with_columns_from_other_drops_y_columns
    [of "\<lparr>columns = [''k'', ''a_y''], rows = [[Num 1, Str ''u''], [Num 2, Str ''v'' :: unit cell]]\<rparr>"
        "\<lparr>columns = [''k'', ''b''], rows = [[Num 1, Str ''p'']]\<rparr>" "[''k'']"
        "\<lparr>columns = [''k'', ''b''], rows = [[Num 1, Str ''p''], [Num 2, Null]]\<rparr>"]
  by (simp add: re_search_y_end_def endswith_def)

text \<open>
  Claim C4. \<^verbatim>\<open>with_columns_from_other\<close> keeps the number of rows of the first table,
  keeps the first table's values wherever a column label is in both tables, and adds
  only new columns. The number of rows is kept (\<open>with_columns_from_other_row_count\<close>),
  the added columns are new ones (\<open>with_columns_from_other_columns\<close>), and a column of
  the first table keeps its values when its label does not end in \<^verbatim>\<open>_y\<close>
  (\<open>with_columns_from_other_keeps_values\<close>). But a column that both tables have under
  a label ending in \<^verbatim>\<open>_y\<close> is lost: with the column \<^verbatim>\<open>a_y\<close> in both tables, the
  result has the key column only, and the first table's values \<^verbatim>\<open>u\<close>, \<^verbatim>\<open>v\<close> are
  gone.
\<close>

theorem with_columns_from_other_loses_shared_y_column:
  "with_columns_from_other
     \<lparr>columns = [''k'', ''a_y''], rows = [[Num 1, Str ''u''], [Num 2, Str ''v'' :: unit cell]]\<rparr>
     \<lparr>columns = [''k'', ''a_y''], rows = [[Num 1, Str ''p'']]\<rparr> [''k'']
   = Inr \<lparr>columns = [''k''], rows = [[Num 1], [Num 2]]\<rparr>"
  by (simp add: with_columns_from_other_def drop_duplicates_def key_of_def cell_at_def
      merge_left_def missing_key_def join_row_def drop_columns_def re_search_y_end_def
      endswith_def newline_def)

section \<open>Parameter objects\<close>

lemma mapM_err_length: "mapM_err f xs = Inr ys \<Longrightarrow> length ys = length xs"
proof (induction xs arbitrary: ys)
  case Nil
  then show ?case by simp
next
  case (Cons x xs)
  then show ?case
    by (auto simp: bind_err_def split: sum.splits)
qed

lemma cell_at_overwritten:
  "cell_at cs (map (\<lambda>(c, x). if c = k then v else x) (zip cs r)) k = v \<or>
   cell_at cs (map (\<lambda>(c, x). if c = k then v else x) (zip cs r)) k = Null"
proof (induction cs arbitrary: r)
  case Nil
  then show ?case by simp
next
  case (Cons c cs)
  then show ?case by (cases r) auto
qed

lemma cell_at_overwrite:
  "length r = length cs \<Longrightarrow>
   cell_at cs (map (\<lambda>(c, x). if c = k then v else x) (zip cs r)) k'
     = (if k' = k \<and> k \<in> set cs then v else cell_at cs r k')"
proof (induction r cs rule: list_induct2)
  case Nil
  then show ?case by simp
next
  case (Cons x r c cs)
  then show ?case by auto
qed

lemma infer_dtype_objects:
  assumes "list_all (\<lambda>c. \<not> is_Str c \<or> c = Null) col"
  shows "\<not> infer_dtype_is_string col"
proof -
  have "list_all (\<lambda>c. \<not> is_Str c) (filter (\<lambda>c. c \<noteq> Null) col)"
    using assms by (auto simp: list_all_iff)
  then show ?thesis
    by (cases "filter (\<lambda>c. c \<noteq> Null) col") (auto simp: infer_dtype_is_string_def Let_def)
qed

lemma infer_dtype_strings:
  assumes "list_all is_Str col" and "col \<noteq> []"
  shows "infer_dtype_is_string col"
proof -
  have "filter (\<lambda>c. c \<noteq> Null) col = col"
    using assms(1) by (auto simp: list_all_iff is_Str_def filter_id_conv)
  with assms show ?thesis
    by (simp add: infer_dtype_is_string_def)
qed

lemma columns_set_column:
  "k \<in> set (columns df) \<Longrightarrow> columns (set_column df k vals) = columns df"
  by (simp add: set_column_def)

lemma overwrite_column:
  assumes "length rs = length vals" and "\<And>r. r \<in> set rs \<Longrightarrow> length r = length cs"
    and "k \<in> set cs"
  shows "map (\<lambda>r. cell_at cs r k')
           (map (\<lambda>(r, v). map (\<lambda>(c, x). if c = k then v else x) (zip cs r)) (zip rs vals))
         = (if k' = k then vals else map (\<lambda>r. cell_at cs r k') rs)"
  using assms
proof (induction rs vals rule: list_induct2)
  case Nil
  then show ?case by simp
next
  case (Cons r rs v vs)
  have "length r = length cs" using Cons.prems(1) by simp
  from cell_at_overwrite [OF this, of k v k'] Cons show ?case by simp
qed

lemma get_column_set_column:
  assumes "wf_table df" and "k \<in> set (columns df)" and "length vals = length (rows df)"
  shows "get_column (set_column df k vals) k' =
           (if k' = k then Inr vals else get_column df k')"
proof -
  have len: "\<And>r. r \<in> set (rows df) \<Longrightarrow> length r = length (columns df)"
    using assms(1) by (auto simp: wf_table_def list_all_iff)
  have ow: "map (\<lambda>r. cell_at (columns df) r k')
           (map (\<lambda>(r, v). map (\<lambda>(c, x). if c = k then v else x) (zip (columns df) r))
              (zip (rows df) vals))
         = (if k' = k then vals else map (\<lambda>r. cell_at (columns df) r k') (rows df))"
    using assms(3) len assms(2) by (intro overwrite_column) simp_all
  show ?thesis
  proof (cases "k' = k")
    case True
    with ow assms(2) show ?thesis
      by (simp add: get_column_def set_column_def)
  next
    case False
    with ow assms(2) show ?thesis
      by (simp add: get_column_def set_column_def)
  qed
qed

lemma overwritten_column_cells:
  "list_all (\<lambda>x. x = Null \<or> x \<in> set vals)
     (map (\<lambda>r. cell_at cs r k)
        (map (\<lambda>(r, v). map (\<lambda>(c, x). if c = k then v else x) (zip cs r)) (zip rs vals)))"
proof -
  have "\<And>r v. (r, v) \<in> set (zip rs vals) \<Longrightarrow>
      cell_at cs (map (\<lambda>(c, x). if c = k then v else x) (zip cs r)) k = Null \<or>
      cell_at cs (map (\<lambda>(c, x). if c = k then v else x) (zip cs r)) k \<in> set vals"
    using cell_at_overwritten by (metis set_zip_rightD)
  then show ?thesis
    by (auto simp: list_all_iff)
qed

lemma reactions_with_params_objects_again:
  assumes "reactions_with_params_objects from_string rxn_df = Inr t"
  shows "reactions_with_params_objects from_string t = Inr t"
proof -
  from assms obtain col where col: "get_column rxn_df ''params'' = Inr col"
    by (cases "get_column rxn_df ''params''") (simp_all add: reactions_with_params_objects_def)
  then have k: "''params'' \<in> set (columns rxn_df)"
    by (auto simp: get_column_def split: if_splits)
  show ?thesis
  proof (cases "infer_dtype_is_string col")
    case False
    with assms col have "t = rxn_df"
      by (simp add: reactions_with_params_objects_def)
    with False col show ?thesis
      by (simp add: reactions_with_params_objects_def)
  next
    case True
    with assms col obtain objs where t: "t = set_column rxn_df ''params'' (map Obj objs)"
      by (cases "mapM_err from_string col") (auto simp: reactions_with_params_objects_def)
    have cells: "list_all (\<lambda>x. x = Null \<or> x \<in> set (map Obj objs))
       (map (\<lambda>r. cell_at (columns rxn_df) r ''params'')
          (map (\<lambda>(r, v). map (\<lambda>(c, x). if c = ''params'' then v else x) (zip (columns rxn_df) r))
             (zip (rows rxn_df) (map Obj objs))))"
      by (rule overwritten_column_cells)
    have col': "get_column t ''params'' =
       Inr (map (\<lambda>r. cell_at (columns rxn_df) r ''params'')
          (map (\<lambda>(r, v). map (\<lambda>(c, x). if c = ''params'' then v else x) (zip (columns rxn_df) r))
             (zip (rows rxn_df) (map Obj objs))))"
      using k by (simp add: t get_column_def set_column_def)
    have "\<not> infer_dtype_is_string (map (\<lambda>r. cell_at (columns rxn_df) r ''params'')
          (map (\<lambda>(r, v). map (\<lambda>(c, x). if c = ''params'' then v else x) (zip (columns rxn_df) r))
             (zip (rows rxn_df) (map Obj objs))))"
      using cells by (intro infer_dtype_objects) (auto simp: list_all_iff is_Str_def)
    with col' show ?thesis
      by (simp add: reactions_with_params_objects_def)
  qed
qed


text \<open>
  Claim C5. On a reaction table whose params column holds raw strings,
  \<^verbatim>\<open>reactions_with_params_objects\<close> replaces every entry of the column by the object
  parsed from it and leaves the other columns as they are; and applied to a table it
  has returned, it returns that table unchanged.
\<close>

theorem reactions_with_params_objects_idempotent:
  "(wf_table rxn_df \<and> get_column rxn_df ''params'' = Inr col \<and> list_all is_Str col \<and>
    mapM_err from_string col = Inr objs \<longrightarrow>
      (\<exists>t. reactions_with_params_objects from_string rxn_df = Inr t \<and>
           columns t = columns rxn_df \<and>
           (\<forall>k. get_column t k =
                 (if k = ''params'' then Inr (map Obj objs) else get_column rxn_df k)))) \<and>
   (reactions_with_params_objects from_string rxn_df = Inr t' \<longrightarrow>
      reactions_with_params_objects from_string t' = Inr t')"
proof (intro conjI impI)
  assume a: "wf_table rxn_df \<and> get_column rxn_df ''params'' = Inr col \<and> list_all is_Str col \<and>
    mapM_err from_string col = Inr objs"
  then have k: "''params'' \<in> set (columns rxn_df)"
    and col: "col = map (\<lambda>r. cell_at (columns rxn_df) r ''params'') (rows rxn_df)"
    by (auto simp: get_column_def split: if_splits)
  from a have len: "length objs = length col"
    by (auto dest: mapM_err_length)
  show "\<exists>t. reactions_with_params_objects from_string rxn_df = Inr t \<and>
           columns t = columns rxn_df \<and>
           (\<forall>k. get_column t k =
                 (if k = ''params'' then Inr (map Obj objs) else get_column rxn_df k))"
  proof (cases "col = []")
    case True
    with a have "\<not> infer_dtype_is_string col" and "objs = []"
      by (auto simp: infer_dtype_is_string_def)
    with a True show ?thesis
      by (auto simp: reactions_with_params_objects_def)
  next
    case False
    with a have "infer_dtype_is_string col"
      by (auto intro: infer_dtype_strings)
    with a have r: "reactions_with_params_objects from_string rxn_df
                    = Inr (set_column rxn_df ''params'' (map Obj objs))"
      by (simp add: reactions_with_params_objects_def)
    have "length (map Obj objs) = length (rows rxn_df)"
      using len col by simp
    with a k have "\<And>k'. get_column (set_column rxn_df ''params'' (map Obj objs)) k' =
           (if k' = ''params'' then Inr (map Obj objs) else get_column rxn_df k')"
      by (intro get_column_set_column) simp_all
    with r k show ?thesis
      by (simp add: columns_set_column)
  qed
next
  assume "reactions_with_params_objects from_string rxn_df = Inr t'"
  then show "reactions_with_params_objects from_string t' = Inr t'"
    by (rule reactions_with_params_objects_again)
qed

theorem reactions_with_params_objects_idempotent_witness:
  "wf_table \<lparr>columns = [''name'', ''params''],
             rows = [[Str ''A=B'', Str ''1.0 0.0 0.0''],
                     [Str ''B=C'', Str ''2.0 0.0 10.0'' :: nat cell]]\<rparr> \<and>
   (\<exists>t. reactions_with_params_objects
          (\<lambda>c. case c of Str s \<Rightarrow> Inr (length s) | _ \<Rightarrow> Inl TypeError)
          \<lparr>columns = [''name'', ''params''],
            rows = [[Str ''A=B'', Str ''1.0 0.0 0.0''], [Str ''B=C'', Str ''2.0 0.0 10.0'']]\<rparr>
        = Inr t \<and>
        get_column t ''params'' = Inr [Obj 11, Obj 12] \<and>
        get_column t ''name'' = Inr [Str ''A=B'', Str ''B=C''] \<and>
        reactions_with_params_objects
          (\<lambda>c. case c of Str s \<Rightarrow> Inr (length s) | _ \<Rightarrow> Inl TypeError) t = Inr t)"
proof -
  let ?fs = "\<lambda>c :: nat cell. case c of Str s \<Rightarrow> Inr (length s) | _ \<Rightarrow> Inl TypeError"
  let ?T = "\<lparr>columns = [''name'', ''params''],
             rows = [[Str ''A=B'', Str ''1.0 0.0 0.0''], [Str ''B=C'', Str ''2.0 0.0 10.0'']]\<rparr>
            :: nat table"
  have wf: "wf_table ?T"
    by (simp add: wf_table_def)
  have h: "wf_table ?T \<and>
      get_column ?T ''params'' = Inr [Str ''1.0 0.0 0.0'', Str ''2.0 0.0 10.0''] \<and>
      list_all is_Str [Str ''1.0 0.0 0.0'', Str ''2.0 0.0 10.0'' :: nat cell] \<and>
      mapM_err ?fs [Str ''1.0 0.0 0.0'', Str ''2.0 0.0 10.0''] = Inr [11, 12]"
    by (simp add: wf_table_def get_column_def is_Str_def)
  from reactions_with_params_objects_idempotent
         [of ?T "[Str ''1.0 0.0 0.0'', Str ''2.0 0.0 10.0'']" ?fs "[11, 12]"] h
  obtain t where t: "reactions_with_params_objects ?fs ?T = Inr t"
    and c: "\<forall>k. get_column t k =
                 (if k = ''params'' then Inr (map Obj [11, 12]) else get_column ?T k)"
    by blast
  from reactions_with_params_objects_idempotent [of ?T _ ?fs _ t] t
  have again: "reactions_with_params_objects ?fs t = Inr t"
    by blast
  from c have "get_column t ''params'' = Inr [Obj 11, Obj 12]"
    by simp
  moreover from c have "get_column t ''name'' = get_column ?T ''name''"
    by simp
  then have "get_column t ''name'' = Inr [Str ''A=B'', Str ''B=C'']"
    by (simp add: get_column_def)
  ultimately have "reactions_with_params_objects ?fs ?T = Inr t \<and>
        get_column t ''params'' = Inr [Obj 11, Obj 12] \<and>
        get_column t ''name'' = Inr [Str ''A=B'', Str ''B=C''] \<and>
        reactions_with_params_objects ?fs t = Inr t"
    using t again by simp
  then show ?thesis
    using wf by (intro conjI exI [of _ t]) simp_all
qed

section \<open>Mirror images and racemates of reactions\<close>

lemma mapM_err_Inr_iff:
  "mapM_err f xs = Inr ys \<longleftrightarrow> list_all2 (\<lambda>x y. f x = Inr y) xs ys"
proof (induction xs arbitrary: ys)
  case Nil
  then show ?case by auto
next
  case (Cons x xs)
  show ?case
  proof (cases "f x")
    case (Inl e)
    then show ?thesis by (auto simp: list_all2_Cons1)
  next
    case (Inr y)
    show ?thesis
    proof (cases "mapM_err f xs")
      case (Inl e)
      with Inr Cons.IH show ?thesis by (auto simp: list_all2_Cons1)
    next
      case r: (Inr zs)
      with Inr Cons.IH show ?thesis by (auto simp: list_all2_Cons1)
    qed
  qed
qed

lemma mapM_err_Inl_source:
  "mapM_err f xs = Inl e \<Longrightarrow> \<exists>x \<in> set xs. f x = Inl e"
proof (induction xs)
  case Nil
  then show ?case by simp
next
  case (Cons x xs)
  then show ?case
    by (cases "f x"; cases "mapM_err f xs") auto
qed

lemma mapM_err_first_failure:
  assumes "list_all (\<lambda>m. \<exists>r. f m = Inr r) pre" and "f n = Inl e"
  shows "mapM_err f (pre @ n # post) = Inl e"
  using assms(1)
proof (induction pre)
  case Nil
  with assms(2) show ?case by simp
next
  case (Cons m pre)
  then show ?case by auto
qed

lemma mapM_err_append:
  "mapM_err f (xs @ ys) =
     bind_err (mapM_err f xs) (\<lambda>a. bind_err (mapM_err f ys) (\<lambda>b. Inr (a @ b)))"
proof (induction xs)
  case Nil
  then show ?case by (cases "mapM_err f ys") simp_all
next
  case (Cons x xs)
  then show ?case
    by (cases "f x"; cases "mapM_err f xs"; cases "mapM_err f ys") simp_all
qed

lemma mapM_err_zip_map:
  "mapM_err (case_prod f) (zip ns (map g ns)) = mapM_err (\<lambda>n. f n (g n)) ns"
  by (induction ns) simp_all

lemma racemic_reaction_name_error:
  assumes "get_rxn_name name = Inr (rcts, prds, tb)"
    and "mapM_err (\<lambda>n. bind_err (dict_getitem chi_dct n) (\<lambda>c.
            racemic_species_name is_enantiomer n (Some c))) (rcts @ prds) = Inl e"
  shows "racemic_reaction_name is_enantiomer get_rxn_name format_rxn_name name chi_dct = Inl e"
  using assms
  by (cases "mapM_err (\<lambda>n. bind_err (dict_getitem chi_dct n) (\<lambda>c.
            racemic_species_name is_enantiomer n (Some c))) rcts";
      cases "mapM_err (\<lambda>n. bind_err (dict_getitem chi_dct n) (\<lambda>c.
            racemic_species_name is_enantiomer n (Some c))) prds")
     (simp_all add: racemic_reaction_name_def mapM_err_append)


text \<open>
  Claim C7. For a reaction name that parses, \<^verbatim>\<open>reflect_reaction_name\<close> returns
  \<^verbatim>\<open>None\<close> exactly when the enantiomer-reaction predicate, given the identifiers of
  the reactants and of the products, answers false. When it answers true, the result
  is the writer's serialisation of the reactant names and the product names, each
  replaced by what \<^verbatim>\<open>reflect_species_name\<close> returns for it and its identifier, with
  the third body as parsed. (An exception of \<^verbatim>\<open>reflect_species_name\<close> or of a library
  is passed on.)
\<close>

theorem reflect_reaction_name_spec:
  assumes "get_rxn_name name = Inr (rct_name0s, prd_name0s, third_body)"
  shows
    "(reflect_reaction_name is_enantiomer is_enantiomer_reaction get_rxn_name format_rxn_name
        name chi_dct = Inr None
      \<longleftrightarrow> is_enantiomer_reaction (map chi_dct rct_name0s) (map chi_dct prd_name0s) = Inr False) \<and>
     (is_enantiomer_reaction (map chi_dct rct_name0s) (map chi_dct prd_name0s) = Inr True \<and>
      list_all2 (\<lambda>n n'. reflect_species_name is_enantiomer n (chi_dct n) = Inr n')
        rct_name0s rct_names \<and>
      list_all2 (\<lambda>n n'. reflect_species_name is_enantiomer n (chi_dct n) = Inr n')
        prd_name0s prd_names \<and>
      format_rxn_name (rct_names, prd_names, third_body) = Inr s
      \<longrightarrow> reflect_reaction_name is_enantiomer is_enantiomer_reaction get_rxn_name format_rxn_name
            name chi_dct = Inr (Some s))"
proof -
  let ?R = "reflect_reaction_name is_enantiomer is_enantiomer_reaction get_rxn_name
              format_rxn_name name chi_dct"
  let ?p = "is_enantiomer_reaction (map chi_dct rct_name0s) (map chi_dct prd_name0s)"
  let ?f = "\<lambda>n. reflect_species_name is_enantiomer n (chi_dct n)"
  have R: "?R = bind_err ?p (\<lambda>b.
            if \<not> b then Inr None
            else bind_err (mapM_err ?f rct_name0s) (\<lambda>rct_names.
                 bind_err (mapM_err ?f prd_name0s) (\<lambda>prd_names.
                 bind_err (format_rxn_name (rct_names, prd_names, third_body)) (\<lambda>s.
                   Inr (Some s)))))"
    using assms by (simp add: reflect_reaction_name_def Let_def mapM_err_zip_map cong: if_cong)
  have none: "?R = Inr None \<longleftrightarrow> ?p = Inr False"
  proof (cases ?p)
    case (Inl e)
    with R show ?thesis by simp
  next
    case (Inr b)
    show ?thesis
    proof (cases b)
      case False
      with Inr R show ?thesis by simp
    next
      case True
      with Inr R have "?R \<noteq> Inr None"
        by (cases "mapM_err ?f rct_name0s"; cases "mapM_err ?f prd_name0s")
           (auto simp: bind_err_def split: sum.splits)
      with Inr True show ?thesis by simp
    qed
  qed
  have some: "?R = Inr (Some s)"
    if "?p = Inr True" and "list_all2 (\<lambda>n n'. ?f n = Inr n') rct_name0s rct_names"
      and "list_all2 (\<lambda>n n'. ?f n = Inr n') prd_name0s prd_names"
      and "format_rxn_name (rct_names, prd_names, third_body) = Inr s"
    using that R by (simp add: mapM_err_Inr_iff [symmetric])
  from none some show ?thesis by blast
qed


theorem reflect_reaction_name_spec_witness:
  "reflect_reaction_name
     (\<lambda>c. Inr (c = Some ''chiA'' \<or> c = Some ''chiC'')) (\<lambda>rs ps. Inr True)
     (\<lambda>n. Inr ([''A0'', ''B''], [''C1''], None :: string option))
     (\<lambda>(rs, ps, tb). Inr (concat rs @ ''='' @ concat ps))
     ''A0+B=C1'' [''A0'' \<mapsto> ''chiA'', ''B'' \<mapsto> ''flat'', ''C1'' \<mapsto> ''chiC'']
   = Inr (Some ''A1B=C0'') \<and>
   reflect_reaction_name
     (\<lambda>c. Inr (c = Some ''chiA'' \<or> c = Some ''chiC'')) (\<lambda>rs ps. Inr False)
     (\<lambda>n. Inr ([''A0'', ''B''], [''C1''], None :: string option))
     (\<lambda>(rs, ps, tb). Inr (concat rs @ ''='' @ concat ps))
     ''A0+B=C1'' [''A0'' \<mapsto> ''chiA'', ''B'' \<mapsto> ''flat'', ''C1'' \<mapsto> ''chiC'']
   = Inr None"
proof -
  let ?ie = "\<lambda>c. Inr (c = Some ''chiA'' \<or> c = Some ''chiC'') :: error + bool"
  let ?grn = "\<lambda>n :: string. Inr ([''A0'', ''B''], [''C1''], None :: string option)
                :: error + string list \<times> string list \<times> string option"
  let ?frn = "\<lambda>(rs, ps, tb :: string option). Inr (concat rs @ ''='' @ concat ps)
                :: error + string"
  let ?chi = "[''A0'' \<mapsto> ''chiA'', ''B'' \<mapsto> ''flat'', ''C1'' \<mapsto> ''chiC'']"
  have r: "list_all2 (\<lambda>n n'. reflect_species_name ?ie n (?chi n) = Inr n')
             [''A0'', ''B''] [''A1'', ''B'']"
    by (simp add: reflect_species_name_def endswith_def newline_def)
  have p: "list_all2 (\<lambda>n n'. reflect_species_name ?ie n (?chi n) = Inr n') [''C1''] [''C0'']"
    by (simp add: reflect_species_name_def endswith_def newline_def)
  have f: "?frn ([''A1'', ''B''], [''C0''], None) = Inr ''A1B=C0''"
    by simp
  from reflect_reaction_name_spec
         [where get_rxn_name = ?grn and name = "''A0+B=C1''" and rct_name0s = "[''A0'', ''B'']"
            and prd_name0s = "[''C1'']" and third_body = None and is_enantiomer = ?ie
            and is_enantiomer_reaction = "\<lambda>rs ps. Inr True" and format_rxn_name = ?frn
            and chi_dct = ?chi and rct_names = "[''A1'', ''B'']" and prd_names = "[''C0'']"
            and s = "''A1B=C0''"]
       r p f
  have 1: "reflect_reaction_name ?ie (\<lambda>rs ps. Inr True) ?grn ?frn ''A0+B=C1'' ?chi
           = Inr (Some ''A1B=C0'')"
    by blast
  from reflect_reaction_name_spec
         [where get_rxn_name = ?grn and name = "''A0+B=C1''" and rct_name0s = "[''A0'', ''B'']"
            and prd_name0s = "[''C1'']" and third_body = None and is_enantiomer = ?ie
            and is_enantiomer_reaction = "\<lambda>rs ps. Inr False" and format_rxn_name = ?frn
            and chi_dct = ?chi]
  have 2: "reflect_reaction_name ?ie (\<lambda>rs ps. Inr False) ?grn ?frn ''A0+B=C1'' ?chi = Inr None"
    by blast
  from 1 2 show ?thesis by simp
qed

lemma reflect_species_name_error:
  "reflect_species_name is_enantiomer n c = Inl e \<Longrightarrow>
     is_enantiomer c = Inl e \<or> e = AssertionError None"
  by (cases "is_enantiomer c") (auto simp: reflect_species_name_def split: if_splits)

lemma racemic_lookup_absent:
  "chi_dct n = None \<Longrightarrow>
     bind_err (dict_getitem chi_dct n) (\<lambda>c. racemic_species_name is_enantiomer n (Some c))
       = Inl (KeyError {n})"
  by (simp add: dict_getitem_def)

text \<open>
  Claim C9 says that \<^verbatim>\<open>racemic_reaction_name\<close> raises a key-lookup error whenever a
  parsed species name is absent from the identifier map. The names are looked up and
  racemised one after the other, so an earlier name can raise first: with the
  reactants \<^verbatim>\<open>A\<close> and \<^verbatim>\<open>B\<close>, \<^verbatim>\<open>A\<close> chiral and \<^verbatim>\<open>B\<close> absent from the map, the
  call fails the assertion on the name \<^verbatim>\<open>A\<close>, which does not end in \<^verbatim>\<open>0\<close> or
  \<^verbatim>\<open>1\<close>, and never looks \<^verbatim>\<open>B\<close> up.
\<close>

theorem racemic_reaction_name_not_key_error:
  "[''A'' \<mapsto> ''chiA''] ''B'' = None \<and>
   ''B'' \<in> set ([''A'', ''B''] @ [''C'']) \<and>
   racemic_reaction_name (\<lambda>c. Inr (c = Some ''chiA''))
     (\<lambda>n. Inr ([''A'', ''B''], [''C''], None :: string option))
     (\<lambda>(rs, ps, tb). Inr (concat rs @ ''='' @ concat ps))
     ''A+B=C'' [''A'' \<mapsto> ''chiA'']
   = Inl (AssertionError None) \<and>
   \<not> (\<exists>S. racemic_reaction_name (\<lambda>c. Inr (c = Some ''chiA''))
     (\<lambda>n. Inr ([''A'', ''B''], [''C''], None :: string option))
     (\<lambda>(rs, ps, tb). Inr (concat rs @ ''='' @ concat ps))
     ''A+B=C'' [''A'' \<mapsto> ''chiA'']
   = Inl (KeyError S))"
  by (simp add: racemic_reaction_name_def dict_getitem_def racemic_species_name_def endswith_def)

text \<open>
  Claim C9, amended. For a reaction name that parses: when one of its species names
  is absent from the identifier map, \<^verbatim>\<open>racemic_reaction_name\<close> does not return. The
  names are looked up and racemised in order, reactants before products, and the first
  name that fails decides the exception: the \<^verbatim>\<open>KeyError\<close> of that name when it is
  absent from the map, and otherwise the exception that racemising it raises (the
  name assertion or an exception of the chirality predicate), whatever is absent
  after it. \<^verbatim>\<open>chiral_reactant_count\<close> and \<^verbatim>\<open>reflect_reaction_name\<close> read the map
  with \<^verbatim>\<open>dict.get\<close>, so the libraries' predicates are given \<^verbatim>\<open>None\<close> for an absent
  name: \<^verbatim>\<open>chiral_reactant_count\<close> returns the number of reactants on whose identifier
  (or \<^verbatim>\<open>None\<close>) the chirality predicate answers true, and the only exceptions of the
  two functions are those of the libraries and the name assertion of
  \<^verbatim>\<open>reflect_species_name\<close>.
\<close>

theorem reaction_names_absent_identifier:
  assumes "get_rxn_name name = Inr (rcts, prds, tb)"
  shows
    "((\<exists>n \<in> set (rcts @ prds). chi_dct n = None) \<longrightarrow>
        (\<exists>e. racemic_reaction_name is_enantiomer get_rxn_name format_rxn_name name chi_dct
               = Inl e)) \<and>
     (rcts @ prds = pre @ n # post \<and> chi_dct n = None \<and>
      list_all (\<lambda>m. \<exists>c r. chi_dct m = Some c \<and>
                  racemic_species_name is_enantiomer m (Some c) = Inr r) pre \<longrightarrow>
        racemic_reaction_name is_enantiomer get_rxn_name format_rxn_name name chi_dct
          = Inl (KeyError {n})) \<and>
     (rcts @ prds = earlier @ m # later \<and>
      list_all (\<lambda>m. \<exists>c r. chi_dct m = Some c \<and>
                  racemic_species_name is_enantiomer m (Some c) = Inr r) earlier \<and>
      chi_dct m = Some chi \<and> racemic_species_name is_enantiomer m (Some chi) = Inl raised
      \<longrightarrow>
        racemic_reaction_name is_enantiomer get_rxn_name format_rxn_name name chi_dct
          = Inl raised) \<and>
     (list_all2 (\<lambda>m b. is_enantiomer (chi_dct m) = Inr b) rcts bs \<longrightarrow>
        chiral_reactant_count is_enantiomer get_rxn_name name chi_dct
          = Inr (sum_list (map (\<lambda>b. if b then 1 else 0) bs))) \<and>
     (chiral_reactant_count is_enantiomer get_rxn_name name chi_dct = Inl e \<longrightarrow>
        (\<exists>m \<in> set rcts. is_enantiomer (chi_dct m) = Inl e)) \<and>
     (reflect_reaction_name is_enantiomer is_enantiomer_reaction get_rxn_name format_rxn_name
        name chi_dct = Inl e \<longrightarrow>
        e = AssertionError None \<or>
        is_enantiomer_reaction (map chi_dct rcts) (map chi_dct prds) = Inl e \<or>
        (\<exists>m \<in> set (rcts @ prds). is_enantiomer (chi_dct m) = Inl e) \<or>
        (\<exists>x. format_rxn_name x = Inl e))"
proof (intro conjI impI)
  let ?f = "\<lambda>n. bind_err (dict_getitem chi_dct n) (\<lambda>c.
              racemic_species_name is_enantiomer n (Some c))"
  assume "\<exists>n \<in> set (rcts @ prds). chi_dct n = None"
  then obtain m where m: "m \<in> set (rcts @ prds)" and "chi_dct m = None" by blast
  then have "?f m = Inl (KeyError {m})"
    by (simp add: racemic_lookup_absent)
  with m obtain e' where "mapM_err ?f (rcts @ prds) = Inl e'"
    using mapM_err_fails [of m "rcts @ prds" ?f "KeyError {m}"] by blast
  with assms show "\<exists>e. racemic_reaction_name is_enantiomer get_rxn_name format_rxn_name
                         name chi_dct = Inl e"
    by (blast intro: racemic_reaction_name_error)
next
  let ?f = "\<lambda>n. bind_err (dict_getitem chi_dct n) (\<lambda>c.
              racemic_species_name is_enantiomer n (Some c))"
  assume a: "rcts @ prds = pre @ n # post \<and> chi_dct n = None \<and>
      list_all (\<lambda>m. \<exists>c r. chi_dct m = Some c \<and>
                  racemic_species_name is_enantiomer m (Some c) = Inr r) pre"
  then have "list_all (\<lambda>m. \<exists>r. ?f m = Inr r) pre"
    by (auto simp: list_all_iff dict_getitem_def)
  moreover from a have "?f n = Inl (KeyError {n})"
    by (simp add: racemic_lookup_absent)
  ultimately have "mapM_err ?f (pre @ n # post) = Inl (KeyError {n})"
    by (rule mapM_err_first_failure)
  with a have "mapM_err ?f (rcts @ prds) = Inl (KeyError {n})"
    by simp
  with assms show "racemic_reaction_name is_enantiomer get_rxn_name format_rxn_name
                     name chi_dct = Inl (KeyError {n})"
    by (rule racemic_reaction_name_error)
next
  let ?f = "\<lambda>n. bind_err (dict_getitem chi_dct n) (\<lambda>c.
              racemic_species_name is_enantiomer n (Some c))"
  assume a: "rcts @ prds = earlier @ m # later \<and>
      list_all (\<lambda>m. \<exists>c r. chi_dct m = Some c \<and>
                  racemic_species_name is_enantiomer m (Some c) = Inr r) earlier \<and>
      chi_dct m = Some chi \<and> racemic_species_name is_enantiomer m (Some chi) = Inl raised"
  then have "list_all (\<lambda>m. \<exists>r. ?f m = Inr r) earlier"
    by (auto simp: list_all_iff dict_getitem_def)
  moreover from a have "?f m = Inl raised"
    by (simp add: dict_getitem_def)
  ultimately have "mapM_err ?f (earlier @ m # later) = Inl raised"
    by (rule mapM_err_first_failure)
  with a have "mapM_err ?f (rcts @ prds) = Inl raised"
    by simp
  with assms show "racemic_reaction_name is_enantiomer get_rxn_name format_rxn_name
                     name chi_dct = Inl raised"
    by (rule racemic_reaction_name_error)
next
  assume "list_all2 (\<lambda>m b. is_enantiomer (chi_dct m) = Inr b) rcts bs"
  then have "mapM_err is_enantiomer (map chi_dct rcts) = Inr bs"
    by (simp add: mapM_err_Inr_iff list_all2_map1)
  with assms show "chiral_reactant_count is_enantiomer get_rxn_name name chi_dct
          = Inr (sum_list (map (\<lambda>b. if b then 1 else 0) bs))"
    by (simp add: chiral_reactant_count_def)
next
  assume "chiral_reactant_count is_enantiomer get_rxn_name name chi_dct = Inl e"
  with assms have "mapM_err is_enantiomer (map chi_dct rcts) = Inl e"
    by (cases "mapM_err is_enantiomer (map chi_dct rcts)")
       (simp_all add: chiral_reactant_count_def)
  from mapM_err_Inl_source [OF this]
  show "\<exists>m \<in> set rcts. is_enantiomer (chi_dct m) = Inl e"
    by auto
next
  let ?p = "is_enantiomer_reaction (map chi_dct rcts) (map chi_dct prds)"
  let ?f = "\<lambda>n. reflect_species_name is_enantiomer n (chi_dct n)"
  assume R: "reflect_reaction_name is_enantiomer is_enantiomer_reaction get_rxn_name
               format_rxn_name name chi_dct = Inl e"
  have src: "e = AssertionError None \<or> (\<exists>m \<in> set ns. is_enantiomer (chi_dct m) = Inl e)"
    if "mapM_err ?f ns = Inl e" for ns
    using mapM_err_Inl_source [OF that] reflect_species_name_error by blast
  from R assms have cases:
    "?p = Inl e \<or> mapM_err ?f rcts = Inl e \<or> mapM_err ?f prds = Inl e \<or>
     (\<exists>x. format_rxn_name x = Inl e)"
    by (cases ?p; cases "mapM_err ?f rcts"; cases "mapM_err ?f prds")
       (auto simp: reflect_reaction_name_def Let_def mapM_err_zip_map bind_err_def
             split: if_splits sum.splits)
  with src [of rcts] src [of prds]
  show "e = AssertionError None \<or> ?p = Inl e \<or>
        (\<exists>m \<in> set (rcts @ prds). is_enantiomer (chi_dct m) = Inl e) \<or>
        (\<exists>x. format_rxn_name x = Inl e)"
    by auto
qed


theorem reaction_names_absent_identifier_witness:
  "[''A0'' \<mapsto> ''chiA''] ''B'' = None \<and>
   racemic_reaction_name (\<lambda>c. Inr (c = Some ''chiA''))
     (\<lambda>n. Inr ([''A0'', ''B''], [''C''], None :: string option))
     (\<lambda>(rs, ps, tb). Inr (concat rs @ ''='' @ concat ps))
     ''A0+B=C'' [''A0'' \<mapsto> ''chiA'']
   = Inl (KeyError {''B''}) \<and>
   chiral_reactant_count (\<lambda>c. Inr (c = Some ''chiA''))
     (\<lambda>n. Inr ([''A0'', ''B''], [''C''], None :: string option))
     ''A0+B=C'' [''A0'' \<mapsto> ''chiA'']
   = Inr 1 \<and>
   racemic_reaction_name (\<lambda>c. Inr (c = Some ''chiA''))
     (\<lambda>n. Inr ([''B0'', ''A''], [''C''], None :: string option))
     (\<lambda>(rs, ps, tb). Inr (concat rs @ ''='' @ concat ps))
     ''B0+A=C'' [''B0'' \<mapsto> ''flat'', ''A'' \<mapsto> ''chiA'']
   = Inl (AssertionError None)"
proof -
  let ?ie = "\<lambda>c. Inr (c = Some ''chiA'') :: error + bool"
  let ?grn = "\<lambda>n :: string. Inr ([''A0'', ''B''], [''C''], None :: string option)
                :: error + string list \<times> string list \<times> string option"
  let ?grn2 = "\<lambda>n :: string. Inr ([''B0'', ''A''], [''C''], None :: string option)
                :: error + string list \<times> string list \<times> string option"
  let ?frn = "\<lambda>(rs, ps, tb :: string option). Inr (concat rs @ ''='' @ concat ps)
                :: error + string"
  let ?chi = "[''A0'' \<mapsto> ''chiA'']"
  let ?chi2 = "[''B0'' \<mapsto> ''flat'', ''A'' \<mapsto> ''chiA'']"
  have absent: "?chi ''B'' = None"
    by simp
  have split: "[''A0'', ''B''] @ [''C''] = [''A0''] @ ''B'' # [''C'']"
    by simp
  have pre: "list_all (\<lambda>m. \<exists>c r. ?chi m = Some c \<and>
                racemic_species_name ?ie m (Some c) = Inr r) [''A0'']"
    by (simp add: racemic_species_name_def endswith_def newline_def)
  have bs: "list_all2 (\<lambda>m b. ?ie (?chi m) = Inr b) [''A0'', ''B''] [True, False]"
    by simp
  note inst = reaction_names_absent_identifier
         [where get_rxn_name = ?grn and name = "''A0+B=C''" and rcts = "[''A0'', ''B'']"
            and prds = "[''C'']" and tb = None and is_enantiomer = ?ie
            and format_rxn_name = ?frn and chi_dct = ?chi and pre = "[''A0'']"
            and n = "''B''" and post = "[''C'']" and bs = "[True, False]"]
  from inst absent split pre
  have 1: "racemic_reaction_name ?ie ?grn ?frn ''A0+B=C'' ?chi = Inl (KeyError {''B''})"
    by blast
  from inst bs
  have 2: "chiral_reactant_count ?ie ?grn ''A0+B=C'' ?chi = Inr 1"
    by simp
  have split2: "[''B0'', ''A''] @ [''C''] = [''B0''] @ ''A'' # [''C'']"
    by simp
  have pre2: "list_all (\<lambda>m. \<exists>c r. ?chi2 m = Some c \<and>
                racemic_species_name ?ie m (Some c) = Inr r) [''B0'']"
    by (simp add: racemic_species_name_def)
  have present: "?chi2 ''A'' = Some ''chiA''"
    by simp
  have raises: "racemic_species_name ?ie ''A'' (Some ''chiA'') = Inl (AssertionError None)"
    by (simp add: racemic_species_name_def endswith_def)
  note inst2 = reaction_names_absent_identifier
         [where get_rxn_name = ?grn2 and name = "''B0+A=C''" and rcts = "[''B0'', ''A'']"
            and prds = "[''C'']" and tb = None and is_enantiomer = ?ie
            and format_rxn_name = ?frn and chi_dct = ?chi2 and earlier = "[''B0'']"
            and m = "''A''" and later = "[''C'']" and chi = "''chiA''"
            and raised = "AssertionError None",
          THEN conjunct2, THEN conjunct2, THEN conjunct1]
  from inst2 split2 pre2 present raises
  have 3: "racemic_reaction_name ?ie ?grn2 ?frn ''B0+A=C'' ?chi2 = Inl (AssertionError None)"
    by simp
  from absent 1 2 3 show ?thesis by simp
qed

section \<open>What a call writes into the caller's tables\<close>

lemma cell_at_appended:
  "length r = length cs \<Longrightarrow>
   cell_at (cs @ [k]) (r @ [v]) k' =
     (if k' \<in> set cs then cell_at cs r k' else if k' = k then v else Null)"
proof (induction r cs rule: list_induct2)
  case Nil
  then show ?case by simp
next
  case (Cons x r c cs)
  then show ?case by auto
qed

lemma append_column:
  assumes "length rs = length vals" and "\<And>r. r \<in> set rs \<Longrightarrow> length r = length cs"
    and "k \<notin> set cs"
  shows "map (\<lambda>r. cell_at (cs @ [k]) r k') (map (\<lambda>(r, v). r @ [v]) (zip rs vals))
         = (if k' = k then vals else map (\<lambda>r. cell_at cs r k') rs)"
  using assms
proof (induction rs vals rule: list_induct2)
  case Nil
  then show ?case by simp
next
  case (Cons r rs v vs)
  have len: "length r = length cs" using Cons.prems(1) by simp
  have "cell_at cs r k' = Null" if "k' \<notin> set cs"
    using that by (rule cell_at_absent)
  with cell_at_appended [OF len, of k v k'] Cons show ?case by auto
qed

lemma get_column_set_column_any:
  assumes "wf_table df" and "length vals = length (rows df)"
  shows "get_column (set_column df k vals) k' =
           (if k' = k then Inr vals else get_column df k')"
proof (cases "k \<in> set (columns df)")
  case True
  from assms(1) True assms(2) show ?thesis by (rule get_column_set_column)
next
  case False
  have len: "\<And>r. r \<in> set (rows df) \<Longrightarrow> length r = length (columns df)"
    using assms(1) by (auto simp: wf_table_def list_all_iff)
  have ap: "map (\<lambda>r. cell_at (columns df @ [k]) r k') (map (\<lambda>(r, v). r @ [v]) (zip (rows df) vals))
         = (if k' = k then vals else map (\<lambda>r. cell_at (columns df) r k') (rows df))"
    using assms(2) len False by (intro append_column) simp_all
  show ?thesis
  proof (cases "k' = k")
    case True
    with ap False show ?thesis
      by (simp add: get_column_def set_column_def)
  next
    case ne: False
    with ap False show ?thesis
      by (simp add: get_column_def set_column_def)
  qed
qed

lemma reactions_with_params_objects_frame:
  assumes "reactions_with_params_objects from_string t = Inr t'" and "wf_table t"
  shows "columns t' = columns t"
    and "k \<noteq> ''params'' \<Longrightarrow> get_column t' k = get_column t k"
    and "length (rows t') = length (rows t)"
proof -
  from assms(1) obtain col where col: "get_column t ''params'' = Inr col"
    by (cases "get_column t ''params''") (simp_all add: reactions_with_params_objects_def)
  then have k: "''params'' \<in> set (columns t)"
    and c: "col = map (\<lambda>r. cell_at (columns t) r ''params'') (rows t)"
    by (auto simp: get_column_def split: if_splits)
  have "columns t' = columns t \<and> (k \<noteq> ''params'' \<longrightarrow> get_column t' k = get_column t k)
        \<and> length (rows t') = length (rows t)"
  proof (cases "infer_dtype_is_string col")
    case False
    with assms(1) col show ?thesis
      by (simp add: reactions_with_params_objects_def)
  next
    case True
    with assms(1) col obtain objs where m: "mapM_err from_string col = Inr objs"
      and t': "t' = set_column t ''params'' (map Obj objs)"
      by (cases "mapM_err from_string col") (auto simp: reactions_with_params_objects_def)
    from mapM_err_length [OF m] c have len: "length (map Obj objs) = length (rows t)"
      by simp
    from get_column_set_column_any [OF assms(2) len, of "''params''" k] t' k len
    show ?thesis
      by (simp add: columns_set_column set_column_def)
  qed
  then show "columns t' = columns t"
    and "k \<noteq> ''params'' \<Longrightarrow> get_column t' k = get_column t k"
    and "length (rows t') = length (rows t)"
    by simp_all
qed

lemma mechanism_string_fml_frame:
  assumes "mechanism_string_fml formula t = Inr t'" and "wf_table t"
  shows "\<exists>chis fmls. get_column t ''inchi'' = Inr chis \<and>
           list_all2 (\<lambda>c f. formula c = Inr f) chis fmls \<and>
           get_column t' ''fml'' = Inr fmls"
    and "k \<noteq> ''fml'' \<Longrightarrow> get_column t' k = get_column t k"
    and "length (rows t') = length (rows t)"
proof -
  from assms(1) obtain chis where chis: "get_column t ''inchi'' = Inr chis"
    by (cases "get_column t ''inchi''") (simp_all add: mechanism_string_fml_def)
  with assms(1) obtain fmls where m: "mapM_err formula chis = Inr fmls"
    and t': "t' = set_column t ''fml'' fmls"
    by (cases "mapM_err formula chis") (auto simp: mechanism_string_fml_def)
  from chis have "length chis = length (rows t)"
    by (auto simp: get_column_def split: if_splits)
  with mapM_err_length [OF m] have len: "length fmls = length (rows t)"
    by simp
  note gc = get_column_set_column_any [OF assms(2) len, of "''fml''"]
  from gc [of "''fml''"] t' chis m
  show "\<exists>chis fmls. get_column t ''inchi'' = Inr chis \<and>
           list_all2 (\<lambda>c f. formula c = Inr f) chis fmls \<and>
           get_column t' ''fml'' = Inr fmls"
    by (auto simp: mapM_err_Inr_iff)
  from gc [of k] t' show "k \<noteq> ''fml'' \<Longrightarrow> get_column t' k = get_column t k"
    by simp
  from t' len show "length (rows t') = length (rows t)"
    by (simp add: set_column_def)
qed


lemma rwpo_st_cases:
  assumes "reactions_with_params_objects_st from_string st a = (st', res)"
  shows "(\<exists>e. reactions_with_params_objects from_string (st ! a) = Inl e \<and> st' = st \<and> res = Inl e) \<or>
         (\<exists>t. reactions_with_params_objects from_string (st ! a) = Inr t \<and> st' = st[a := t] \<and>
              res = Inr a)"
  using assms
  by (cases "reactions_with_params_objects from_string (st ! a)")
     (auto simp: reactions_with_params_objects_st_def)

lemma mechanism_string_st_cases:
  assumes "mechanism_string_st formula write_chemkin_file st rxn_dct a = (st', res)"
  shows "(\<exists>e. mechanism_string_fml formula (st ! a) = Inl e \<and> st' = st \<and> res = Inl e) \<or>
         (\<exists>t. mechanism_string_fml formula (st ! a) = Inr t \<and> st' = st[a := t] \<and>
              res = mechanism_string_rest write_chemkin_file rxn_dct t)"
  using assms
  by (cases "mechanism_string_fml formula (st ! a)")
     (auto simp: mechanism_string_st_def)

lemma with_columns_from_other_st_result:
  assumes "with_columns_from_other_st st a b merge_on = (st', res)"
  shows "take (length st) st' = st"
    and "res = Inr r \<Longrightarrow> length st \<le> r \<and> r < length st' \<and>
           with_columns_from_other (st ! a) (st ! b) merge_on = Inr (st' ! r)"
proof -
  show "take (length st) st' = st"
    using assms
    by (cases "drop_duplicates (st ! b) merge_on")
       (auto simp: with_columns_from_other_st_def split: sum.splits)
  show "length st \<le> r \<and> r < length st' \<and>
           with_columns_from_other (st ! a) (st ! b) merge_on = Inr (st' ! r)" if "res = Inr r"
    using assms that
    by (cases "drop_duplicates (st ! b) merge_on")
       (auto simp: with_columns_from_other_st_def with_columns_from_other_def nth_append
             split: sum.splits)
qed

lemma lookup_rows_st_cases:
  assumes "lookup_rows_st st a col_val_dct = (st', res)"
  shows "(\<exists>e. lookup_rows (st ! a) col_val_dct = Inl e \<and> st' = st \<and> res = Inl e) \<or>
         (\<exists>t. lookup_rows (st ! a) col_val_dct = Inr t \<and> st' = st @ [t] \<and>
              res = Inr (length st))"
  using assms
  by (cases "lookup_rows (st ! a) col_val_dct") (auto simp: lookup_rows_st_def)

lemma lookup_rows_st_result:
  assumes "lookup_rows_st st a col_val_dct = (st', res)"
  shows "take (length st) st' = st"
    and "res = Inl e \<Longrightarrow> lookup_rows (st ! a) col_val_dct = Inl e"
    and "res = Inr r \<Longrightarrow> length st \<le> r \<and> r < length st' \<and>
           lookup_rows (st ! a) col_val_dct = Inr (st' ! r)"
  using lookup_rows_st_cases [OF assms] by auto

lemma lookup_row_st_result:
  shows "take (length st) (fst (lookup_row_st st a col_val_dct)) = st"
    and "snd (lookup_row_st st a col_val_dct) = lookup_row (st ! a) col_val_dct"
proof -
  show "take (length st) (fst (lookup_row_st st a col_val_dct)) = st"
    by (cases "lookup_rows (st ! a) col_val_dct")
       (simp_all add: lookup_row_st_def lookup_rows_st_def)
  show "snd (lookup_row_st st a col_val_dct) = lookup_row (st ! a) col_val_dct"
    by (cases "lookup_rows (st ! a) col_val_dct")
       (simp_all add: lookup_row_st_def lookup_rows_st_def lookup_row_def split: list.splits)
qed

lemma lookup_value_st_result:
  shows "take (length st) (fst (lookup_value_st st a key col_val_dct)) = st"
    and "snd (lookup_value_st st a key col_val_dct) = lookup_value (st ! a) key col_val_dct"
proof -
  obtain st1 res1 where call: "lookup_row_st st a col_val_dct = (st1, res1)"
    by (cases "lookup_row_st st a col_val_dct")
  with lookup_row_st_result [of st a col_val_dct]
  have keep: "take (length st) st1 = st" and res1: "lookup_row (st ! a) col_val_dct = res1"
    by simp_all
  show "take (length st) (fst (lookup_value_st st a key col_val_dct)) = st"
    using call keep by (cases res1) (simp_all add: lookup_value_st_def)
  show "snd (lookup_value_st st a key col_val_dct) = lookup_value (st ! a) key col_val_dct"
    using call res1 by (cases res1) (simp_all add: lookup_value_st_def lookup_value_def)
qed

lemma lookup_row_each_st_result:
  "a < length st \<Longrightarrow>
     take (length st) (fst (lookup_row_each_st st a cs)) = st \<and>
     snd (lookup_row_each_st st a cs) = mapM_err (lookup_row (st ! a)) cs"
proof (induction cs arbitrary: st)
  case Nil
  then show ?case by simp
next
  case (Cons c cs)
  obtain st1 res1 where first: "lookup_row_st st a c = (st1, res1)"
    by (cases "lookup_row_st st a c")
  with lookup_row_st_result [of st a c]
  have keep: "take (length st) st1 = st" and res1: "res1 = lookup_row (st ! a) c"
    by simp_all
  from res1 have lr: "lookup_row (st ! a) c = res1" by simp
  show ?case
  proof (cases res1)
    case (Inl e)
    with first keep lr show ?thesis by simp
  next
    case (Inr r)
    have "length (take (length st) st1) = length st"
      using keep by simp
    then have le: "length st \<le> length st1"
      by simp
    with Cons.prems have a1: "a < length st1" by simp
    have "take (length st) st1 ! a = st1 ! a"
      using Cons.prems by (rule nth_take)
    with keep have same: "st1 ! a = st ! a"
      by simp
    from Cons.IH [OF a1] same
    have rest: "take (length st1) (fst (lookup_row_each_st st1 a cs)) = st1"
      and rr: "snd (lookup_row_each_st st1 a cs) = mapM_err (lookup_row (st ! a)) cs"
      by simp_all
    have "take (length st) (take (length st1) (fst (lookup_row_each_st st1 a cs)))
            = take (length st) (fst (lookup_row_each_st st1 a cs))"
      using le by (simp add: min_def)
    with rest keep have "take (length st) (fst (lookup_row_each_st st1 a cs)) = st"
      by simp
    with first Inr lr rr show ?thesis
      by (cases "lookup_row_each_st st1 a cs"; cases "snd (lookup_row_each_st st1 a cs)")
         simp_all
  qed
qed

lemma lookup_value_series_st_result:
  assumes "a < length st"
  shows "take (length st) (fst (lookup_value_series_st st a key col_val_dcts)) = st"
    and "snd (lookup_value_series_st st a key col_val_dcts)
           = lookup_value_series (st ! a) key col_val_dcts"
proof -
  obtain st1 res1 where call: "lookup_row_each_st st a col_val_dcts = (st1, res1)"
    by (cases "lookup_row_each_st st a col_val_dcts")
  with lookup_row_each_st_result [OF assms, of col_val_dcts]
  have keep: "take (length st) st1 = st"
    and res1: "mapM_err (lookup_row (st ! a)) col_val_dcts = res1"
    by simp_all
  show "take (length st) (fst (lookup_value_series_st st a key col_val_dcts)) = st"
    using call keep by (cases res1) (simp_all add: lookup_value_series_st_def)
  show "snd (lookup_value_series_st st a key col_val_dcts)
           = lookup_value_series (st ! a) key col_val_dcts"
    using call res1
    by (cases res1) (simp_all add: lookup_value_series_st_def lookup_value_series_def)
qed

lemma species_for_mechanism_st_cases:
  assumes "species_for_mechanism_st st a mech = (st', res)"
  shows "(st' = st \<and> (\<exists>e. res = Inl e \<and> species_for_mechanism (st ! a) mech = Inl e)) \<or>
         (\<exists>t. st' = st @ [t] \<and>
            ((res = Inr (length st) \<and> species_for_mechanism (st ! a) mech = Inr t) \<or>
             (\<exists>e. res = Inl e \<and> species_for_mechanism (st ! a) mech = Inl e)))"
proof -
  define S where "S = set (concat (map (\<lambda>((r, p, third_body), params). r @ p) mech))"
  have st_def: "species_for_mechanism_st st a mech =
     (case get_column (st ! a) ''name'' of
        Inl e \<Rightarrow> (st, Inl e)
      | Inr names \<Rightarrow>
          (st @ [select_rows (st ! a) (map (isin S) names)],
           bind_err (get_column (select_rows (st ! a) (map (isin S) names)) ''name'') (\<lambda>names'.
             if set (strs names') = S then Inr (length st)
             else Inl (AssertionError (Some (set (strs names') - S))))))"
    unfolding species_for_mechanism_st_def S_def Let_def ..
  have v_def: "species_for_mechanism (st ! a) mech =
      bind_err (get_column (st ! a) ''name'') (\<lambda>names.
        bind_err (get_column (select_rows (st ! a) (map (isin S) names)) ''name'') (\<lambda>names'.
          if set (strs names') = S then Inr (select_rows (st ! a) (map (isin S) names))
          else Inl (AssertionError (Some (set (strs names') - S)))))"
    unfolding species_for_mechanism_def S_def Let_def ..
  show ?thesis
  proof (cases "get_column (st ! a) ''name''")
    case (Inl e)
    with assms st_def v_def show ?thesis by auto
  next
    case (Inr names)
    let ?t = "select_rows (st ! a) (map (isin S) names)"
    show ?thesis
    proof (cases "get_column ?t ''name''")
      case (Inl e)
      with Inr assms st_def v_def show ?thesis by auto
    next
      case names': (Inr names')
      show ?thesis
      proof (cases "set (strs names') = S")
        case True
        with names' Inr assms st_def v_def show ?thesis by auto
      next
        case False
        with names' Inr assms st_def v_def show ?thesis by auto
      qed
    qed
  qed
qed

lemma species_for_mechanism_st_result:
  assumes "species_for_mechanism_st st a mech = (st', res)"
  shows "take (length st) st' = st"
    and "res = Inl e \<Longrightarrow> species_for_mechanism (st ! a) mech = Inl e"
    and "res = Inr r \<Longrightarrow> length st \<le> r \<and> r < length st' \<and>
           species_for_mechanism (st ! a) mech = Inr (st' ! r)"
  using species_for_mechanism_st_cases [OF assms] by auto

text \<open>
  Claim C6 says that every function returns a new result and leaves the tables passed
  by the caller unchanged, in particular \<^verbatim>\<open>reactions_with_params_objects\<close> and
  \<^verbatim>\<open>mechanism_string\<close>. Both assign a column to the frame they are given: after
  \<^verbatim>\<open>reactions_with_params_objects\<close> the caller's reaction table holds the parsed
  objects in place of the strings, and after \<^verbatim>\<open>mechanism_string\<close> the caller's
  species table has a column \<^verbatim>\<open>fml\<close> that it did not have.
\<close>

theorem caller_tables_are_written:
  "fst (reactions_with_params_objects_st
          (\<lambda>c. case c of Str s \<Rightarrow> Inr (length s) | _ \<Rightarrow> Inl TypeError)
          [\<lparr>columns = [''name'', ''params''], rows = [[Str ''A=B'', Str ''1.0 0.0 0.0'']]\<rparr>] 0)
     = [\<lparr>columns = [''name'', ''params''], rows = [[Str ''A=B'', Obj 11]]\<rparr>] \<and>
   fst (reactions_with_params_objects_st
          (\<lambda>c. case c of Str s \<Rightarrow> Inr (length s) | _ \<Rightarrow> Inl TypeError)
          [\<lparr>columns = [''name'', ''params''], rows = [[Str ''A=B'', Str ''1.0 0.0 0.0'']]\<rparr>] 0)
     \<noteq> [\<lparr>columns = [''name'', ''params''], rows = [[Str ''A=B'', Str ''1.0 0.0 0.0'']]\<rparr>] \<and>
   fst (mechanism_string_st (\<lambda>c. Inr (Obj 0)) (\<lambda>rxn_dct spc_dct. Inr ''ELEMENTS'')
          [\<lparr>columns = [''name'', ''inchi''], rows = [[Str ''A'', Str ''InChI=1S/A'']]\<rparr>] () 0)
     = [\<lparr>columns = [''name'', ''inchi'', ''fml''],
         rows = [[Str ''A'', Str ''InChI=1S/A'', Obj (0 :: nat)]]\<rparr>] \<and>
   fst (mechanism_string_st (\<lambda>c. Inr (Obj 0)) (\<lambda>rxn_dct spc_dct. Inr ''ELEMENTS'')
          [\<lparr>columns = [''name'', ''inchi''], rows = [[Str ''A'', Str ''InChI=1S/A'']]\<rparr>] () 0)
     \<noteq> [\<lparr>columns = [''name'', ''inchi''],
          rows = [[Str ''A'', Str ''InChI=1S/A'' :: nat cell]]\<rparr>]"
  by (simp add: reactions_with_params_objects_st_def reactions_with_params_objects_def
      mechanism_string_st_def mechanism_string_fml_def get_column_def set_column_def
      infer_dtype_is_string_def is_Str_def)

text \<open>
  Claim C6, amended. Every function of the module returns its result without writing
  into a table of the caller, except \<^verbatim>\<open>reactions_with_params_objects\<close>,
  \<^verbatim>\<open>mechanism_dict\<close> (which calls it) and \<^verbatim>\<open>mechanism_string\<close>.
  \<^verbatim>\<open>reactions_with_params_objects\<close> writes the params column of the caller's
  reaction table in place and returns that same table; \<^verbatim>\<open>mechanism_string\<close> writes
  the column \<^verbatim>\<open>fml\<close> into the caller's species table in place. Nothing else is
  written by them: every other table of the caller is unchanged, the written table
  keeps its rows and all its other columns, and a call of
  \<^verbatim>\<open>reactions_with_params_objects\<close> that raises has written nothing. The other
  functions leave all tables of the caller unchanged: \<^verbatim>\<open>lookup_rows\<close>,
  \<^verbatim>\<open>with_columns_from_other\<close> and \<^verbatim>\<open>species_for_mechanism\<close> return a new table,
  \<^verbatim>\<open>lookup_row\<close>, \<^verbatim>\<open>lookup_value\<close> and \<^verbatim>\<open>lookup_value_series\<close> return values read
  from new tables, each result being the one that the function computes from the
  caller's table as it was; the species- and reaction-name helpers
  (\<^verbatim>\<open>racemic_species_name\<close>, \<^verbatim>\<open>reflect_species_name\<close>, \<^verbatim>\<open>chiral_reactant_count\<close>,
  \<^verbatim>\<open>racemic_reaction_name\<close>, \<^verbatim>\<open>reflect_reaction_name\<close>) are given no table and
  write none.
\<close>

theorem caller_tables_after_call:
  assumes "a < length st" and "wf_table (st ! a)"
  shows
  "(reactions_with_params_objects_st from_string st a = (st_p, res_p) \<longrightarrow>
      length st_p = length st \<and> (\<forall>c. c \<noteq> a \<longrightarrow> st_p ! c = st ! c) \<and>
      columns (st_p ! a) = columns (st ! a) \<and>
      length (rows (st_p ! a)) = length (rows (st ! a)) \<and>
      (\<forall>k. k \<noteq> ''params'' \<longrightarrow> get_column (st_p ! a) k = get_column (st ! a) k) \<and>
      (\<forall>e. res_p = Inl e \<longrightarrow> st_p = st) \<and>
      (\<forall>r. res_p = Inr r \<longrightarrow>
         r = a \<and> reactions_with_params_objects from_string (st ! a) = Inr (st_p ! a))) \<and>
   fst (mechanism_dict_st from_string get_rxn_name st a)
     = fst (reactions_with_params_objects_st from_string st a) \<and>
   (mechanism_string_st formula write_chemkin_file st rxn_dct a = (st_m, res_m) \<longrightarrow>
      length st_m = length st \<and> (\<forall>c. c \<noteq> a \<longrightarrow> st_m ! c = st ! c) \<and>
      length (rows (st_m ! a)) = length (rows (st ! a)) \<and>
      (\<forall>k. k \<noteq> ''fml'' \<longrightarrow> get_column (st_m ! a) k = get_column (st ! a) k) \<and>
      ((st_m = st \<and> (\<exists>e. res_m = Inl e)) \<or>
       mechanism_string_fml formula (st ! a) = Inr (st_m ! a))) \<and>
   (with_columns_from_other_st st a b merge_on = (st_w, res_w) \<longrightarrow>
      take (length st) st_w = st \<and>
      (\<forall>r. res_w = Inr r \<longrightarrow>
         length st \<le> r \<and> r < length st_w \<and>
         with_columns_from_other (st ! a) (st ! b) merge_on = Inr (st_w ! r))) \<and>
   (lookup_rows_st st a col_val_dct = (st_l, res_l) \<longrightarrow>
      take (length st) st_l = st \<and>
      (\<forall>e. res_l = Inl e \<longrightarrow> lookup_rows (st ! a) col_val_dct = Inl e) \<and>
      (\<forall>r. res_l = Inr r \<longrightarrow>
         length st \<le> r \<and> r < length st_l \<and>
         lookup_rows (st ! a) col_val_dct = Inr (st_l ! r))) \<and>
   take (length st) (fst (lookup_row_st st a col_val_dct)) = st \<and>
   snd (lookup_row_st st a col_val_dct) = lookup_row (st ! a) col_val_dct \<and>
   take (length st) (fst (lookup_value_st st a key col_val_dct)) = st \<and>
   snd (lookup_value_st st a key col_val_dct) = lookup_value (st ! a) key col_val_dct \<and>
   take (length st) (fst (lookup_value_series_st st a key col_val_dcts)) = st \<and>
   snd (lookup_value_series_st st a key col_val_dcts)
     = lookup_value_series (st ! a) key col_val_dcts \<and>
   (species_for_mechanism_st st a mech = (st_s, res_s) \<longrightarrow>
      take (length st) st_s = st \<and>
      (\<forall>e. res_s = Inl e \<longrightarrow> species_for_mechanism (st ! a) mech = Inl e) \<and>
      (\<forall>r. res_s = Inr r \<longrightarrow>
         length st \<le> r \<and> r < length st_s \<and>
         species_for_mechanism (st ! a) mech = Inr (st_s ! r))) \<and>
   fst (racemic_species_name_st is_enantiomer st name chi) = st \<and>
   fst (reflect_species_name_st is_enantiomer st name chi) = st \<and>
   fst (chiral_reactant_count_st is_enantiomer parse_name st name chi_dct) = st \<and>
   fst (racemic_reaction_name_st is_enantiomer parse_name format_rxn_name st name chi_dct)
     = st \<and>
   fst (reflect_reaction_name_st is_enantiomer is_enantiomer_reaction parse_name
          format_rxn_name st name chi_dct) = st"
proof (intro conjI impI)
  assume call: "reactions_with_params_objects_st from_string st a = (st_p, res_p)"
  from rwpo_st_cases [OF call]
  have "length st_p = length st \<and> (\<forall>c. c \<noteq> a \<longrightarrow> st_p ! c = st ! c) \<and>
      columns (st_p ! a) = columns (st ! a) \<and>
      length (rows (st_p ! a)) = length (rows (st ! a)) \<and>
      (\<forall>k. k \<noteq> ''params'' \<longrightarrow> get_column (st_p ! a) k = get_column (st ! a) k) \<and>
      (\<forall>e. res_p = Inl e \<longrightarrow> st_p = st) \<and>
      (\<forall>r. res_p = Inr r \<longrightarrow>
         r = a \<and> reactions_with_params_objects from_string (st ! a) = Inr (st_p ! a))"
  proof
    assume "\<exists>e. reactions_with_params_objects from_string (st ! a) = Inl e \<and> st_p = st \<and>
              res_p = Inl e"
    then show ?thesis by auto
  next
    assume "\<exists>t. reactions_with_params_objects from_string (st ! a) = Inr t \<and>
              st_p = st[a := t] \<and> res_p = Inr a"
    then obtain t where t: "reactions_with_params_objects from_string (st ! a) = Inr t"
      and st_p: "st_p = st[a := t]" and res_p: "res_p = Inr a"
      by blast
    from st_p assms(1) have at: "st_p ! a = t" by simp
    from reactions_with_params_objects_frame [OF t assms(2)] at st_p res_p t
    show ?thesis by auto
  qed
  then show "length st_p = length st" and "\<forall>c. c \<noteq> a \<longrightarrow> st_p ! c = st ! c"
    and "columns (st_p ! a) = columns (st ! a)"
    and "length (rows (st_p ! a)) = length (rows (st ! a))"
    and "\<forall>k. k \<noteq> ''params'' \<longrightarrow> get_column (st_p ! a) k = get_column (st ! a) k"
    and "\<forall>e. res_p = Inl e \<longrightarrow> st_p = st"
    and "\<forall>r. res_p = Inr r \<longrightarrow>
         r = a \<and> reactions_with_params_objects from_string (st ! a) = Inr (st_p ! a)"
    by blast+
next
  show "fst (mechanism_dict_st from_string get_rxn_name st a)
     = fst (reactions_with_params_objects_st from_string st a)"
    by (cases "reactions_with_params_objects_st from_string st a")
       (auto simp: mechanism_dict_st_def split: sum.splits)
next
  assume call: "mechanism_string_st formula write_chemkin_file st rxn_dct a = (st_m, res_m)"
  from mechanism_string_st_cases [OF call]
  have "length st_m = length st \<and> (\<forall>c. c \<noteq> a \<longrightarrow> st_m ! c = st ! c) \<and>
      length (rows (st_m ! a)) = length (rows (st ! a)) \<and>
      (\<forall>k. k \<noteq> ''fml'' \<longrightarrow> get_column (st_m ! a) k = get_column (st ! a) k) \<and>
      ((st_m = st \<and> (\<exists>e. res_m = Inl e)) \<or>
       mechanism_string_fml formula (st ! a) = Inr (st_m ! a))"
  proof
    assume "\<exists>e. mechanism_string_fml formula (st ! a) = Inl e \<and> st_m = st \<and> res_m = Inl e"
    then show ?thesis by auto
  next
    assume "\<exists>t. mechanism_string_fml formula (st ! a) = Inr t \<and> st_m = st[a := t] \<and>
              res_m = mechanism_string_rest write_chemkin_file rxn_dct t"
    then obtain t where t: "mechanism_string_fml formula (st ! a) = Inr t"
      and st_m: "st_m = st[a := t]"
      by blast
    from st_m assms(1) have at: "st_m ! a = t" by simp
    from mechanism_string_fml_frame(2,3) [OF t assms(2)] at st_m t
    show ?thesis by auto
  qed
  then show "length st_m = length st" and "\<forall>c. c \<noteq> a \<longrightarrow> st_m ! c = st ! c"
    and "length (rows (st_m ! a)) = length (rows (st ! a))"
    and "\<forall>k. k \<noteq> ''fml'' \<longrightarrow> get_column (st_m ! a) k = get_column (st ! a) k"
    and "(st_m = st \<and> (\<exists>e. res_m = Inl e)) \<or>
       mechanism_string_fml formula (st ! a) = Inr (st_m ! a)"
    by blast+
next
  assume call: "with_columns_from_other_st st a b merge_on = (st_w, res_w)"
  from with_columns_from_other_st_result [OF call]
  show "take (length st) st_w = st"
    and "\<forall>r. res_w = Inr r \<longrightarrow>
         length st \<le> r \<and> r < length st_w \<and>
         with_columns_from_other (st ! a) (st ! b) merge_on = Inr (st_w ! r)"
    by blast+
next
  assume call: "lookup_rows_st st a col_val_dct = (st_l, res_l)"
  from lookup_rows_st_result [OF call]
  show "take (length st) st_l = st"
    and "\<forall>e. res_l = Inl e \<longrightarrow> lookup_rows (st ! a) col_val_dct = Inl e"
    and "\<forall>r. res_l = Inr r \<longrightarrow>
         length st \<le> r \<and> r < length st_l \<and>
         lookup_rows (st ! a) col_val_dct = Inr (st_l ! r)"
    by blast+
next
  show "take (length st) (fst (lookup_row_st st a col_val_dct)) = st"
    and "snd (lookup_row_st st a col_val_dct) = lookup_row (st ! a) col_val_dct"
    by (rule lookup_row_st_result)+
next
  show "take (length st) (fst (lookup_value_st st a key col_val_dct)) = st"
    and "snd (lookup_value_st st a key col_val_dct) = lookup_value (st ! a) key col_val_dct"
    by (rule lookup_value_st_result)+
next
  show "take (length st) (fst (lookup_value_series_st st a key col_val_dcts)) = st"
    and "snd (lookup_value_series_st st a key col_val_dcts)
           = lookup_value_series (st ! a) key col_val_dcts"
    using assms(1) by (rule lookup_value_series_st_result)+
next
  assume call: "species_for_mechanism_st st a mech = (st_s, res_s)"
  from species_for_mechanism_st_result [OF call]
  show "take (length st) st_s = st"
    and "\<forall>e. res_s = Inl e \<longrightarrow> species_for_mechanism (st ! a) mech = Inl e"
    and "\<forall>r. res_s = Inr r \<longrightarrow>
         length st \<le> r \<and> r < length st_s \<and>
         species_for_mechanism (st ! a) mech = Inr (st_s ! r)"
    by blast+
next
  show "fst (racemic_species_name_st is_enantiomer st name chi) = st"
    by (simp add: racemic_species_name_st_def)
  show "fst (reflect_species_name_st is_enantiomer st name chi) = st"
    by (simp add: reflect_species_name_st_def)
  show "fst (chiral_reactant_count_st is_enantiomer parse_name st name chi_dct) = st"
    by (simp add: chiral_reactant_count_st_def)
  show "fst (racemic_reaction_name_st is_enantiomer parse_name format_rxn_name st name chi_dct)
          = st"
    by (simp add: racemic_reaction_name_st_def)
  show "fst (reflect_reaction_name_st is_enantiomer is_enantiomer_reaction parse_name
               format_rxn_name st name chi_dct) = st"
    by (simp add: reflect_reaction_name_st_def)
qed


theorem caller_tables_after_call_witness:
  "(0 :: nat) < length [\<lparr>columns = [''name'', ''params''],
                       rows = [[Str ''A=B'', Str ''1.0 0.0 0.0'' :: nat cell]]\<rparr>] \<and>
   wf_table ([\<lparr>columns = [''name'', ''params''],
               rows = [[Str ''A=B'', Str ''1.0 0.0 0.0'' :: nat cell]]\<rparr>] ! 0) \<and>
   reactions_with_params_objects_st
     (\<lambda>c. case c of Str s \<Rightarrow> Inr (length s) | _ \<Rightarrow> Inl TypeError)
     [\<lparr>columns = [''name'', ''params''], rows = [[Str ''A=B'', Str ''1.0 0.0 0.0'']]\<rparr>] 0
     = ([\<lparr>columns = [''name'', ''params''], rows = [[Str ''A=B'', Obj 11]]\<rparr>], Inr 0) \<and>
   get_column \<lparr>columns = [''name'', ''params''], rows = [[Str ''A=B'', Obj (11 :: nat)]]\<rparr> ''name''
     = get_column \<lparr>columns = [''name'', ''params''],
                   rows = [[Str ''A=B'', Str ''1.0 0.0 0.0'']]\<rparr> ''name'' \<and>
   take 1 (fst (lookup_value_st
                  [\<lparr>columns = [''name'', ''params''],
                     rows = [[Str ''A=B'', Str ''1.0 0.0 0.0'' :: nat cell]]\<rparr>]
                  0 ''params'' [(''name'', Str ''A=B'')]))
     = [\<lparr>columns = [''name'', ''params''], rows = [[Str ''A=B'', Str ''1.0 0.0 0.0'']]\<rparr>]"
proof -
  let ?fs = "\<lambda>c :: nat cell. case c of Str s \<Rightarrow> Inr (length s) | _ \<Rightarrow> Inl TypeError"
  let ?T = "\<lparr>columns = [''name'', ''params''],
             rows = [[Str ''A=B'', Str ''1.0 0.0 0.0'' :: nat cell]]\<rparr>"
  let ?T' = "\<lparr>columns = [''name'', ''params''], rows = [[Str ''A=B'', Obj (11 :: nat)]]\<rparr>"
  have a: "(0 :: nat) < length [?T]"
    by simp
  have wf: "wf_table ([?T] ! 0)"
    by (simp add: wf_table_def)
  have call: "reactions_with_params_objects_st ?fs [?T] 0 = ([?T'], Inr 0)"
    by (simp add: reactions_with_params_objects_st_def reactions_with_params_objects_def
        get_column_def set_column_def infer_dtype_is_string_def is_Str_def)
  note inst = caller_tables_after_call
      [OF a wf, where from_string = ?fs and st_p = "[?T']" and res_p = "Inr 0"]
  from inst [THEN conjunct1, THEN mp, OF call]
  have "\<forall>k. k \<noteq> ''params'' \<longrightarrow> get_column ([?T'] ! 0) k = get_column ([?T] ! 0) k"
    by (elim conjE)
  then have frame: "get_column ?T' ''name'' = get_column ?T ''name''"
    by simp
  note kept = caller_tables_after_call
      [OF a wf, where key = "''params''" and col_val_dct = "[(''name'', Str ''A=B'')]",
       THEN conjunct2, THEN conjunct2, THEN conjunct2, THEN conjunct2, THEN conjunct2,
       THEN conjunct2, THEN conjunct2, THEN conjunct1]
  from kept have "take 1 (fst (lookup_value_st [?T] 0 ''params'' [(''name'', Str ''A=B'')]))
                  = [?T]"
    by simp
  with a wf call frame show ?thesis
    by simp
qed

end
